theory Spec2Isabelle
  imports
    Main
    "HOL-Library.AList"
    "HOL-Library.Sublist"
    "HOL-Library.Char_ord"
    "HOL-Library.List_Lexorder"
    "HOL-Library.Product_Lexorder"
    "HOL-Library.Multiset"
begin

section \<open>Values, dictionaries and Python string helpers\<close>

text \<open>
  The program keeps four JSON files, each a dictionary from an id to a record that is
  itself a dictionary of scalar values. A dictionary is an association list in insertion
  order with distinct keys (what \<open>json.load\<close> yields); \<open>d[k] = v\<close> is \<open>AList.update\<close>
  (in place when the key exists, appended otherwise), \<open>del d[k]\<close> is \<open>AList.delete\<close>,
  \<open>d.get(k)\<close> is \<open>map_of d k\<close>. Strings are byte lists.
\<close>

datatype jval = JStr string | JInt int | JBool bool | JNull

type_synonym dict = "(string \<times> jval) list"
type_synonym collection = "(string \<times> dict) list"

text \<open>
  Exceptions as values. \<open>KeyError\<close> is a subscript on a missing key; \<open>TypeError\<close> stands
  for every exception Python raises when a stored value does not have the type the
  operation needs (its \<open>TypeError\<close>, \<open>AttributeError\<close> and \<open>ValueError\<close>); \<open>IOError\<close> is a
  failed file-system call.
\<close>

datatype error = KeyError | TypeError | IOError

text \<open>\<open>d[k]\<close>\<close>

definition subscript :: "dict \<Rightarrow> string \<Rightarrow> error + jval" where
  "subscript d k = (case map_of d k of None \<Rightarrow> Inl KeyError | Some v \<Rightarrow> Inr v)"

text \<open>\<open>d[k]\<close> used where the source needs a \<open>str\<close>\<close>

definition subscript_str :: "dict \<Rightarrow> string \<Rightarrow> error + string" where
  "subscript_str d k =
     (case map_of d k of
        None \<Rightarrow> Inl KeyError
      | Some (JStr s) \<Rightarrow> Inr s
      | Some _ \<Rightarrow> Inl TypeError)"

text \<open>\<open>d.get(k)\<close>: \<open>None\<close> for a missing key\<close>

definition dget :: "dict \<Rightarrow> string \<Rightarrow> jval" where
  "dget d k = (case map_of d k of None \<Rightarrow> JNull | Some v \<Rightarrow> v)"

text \<open>\<open>d.update(e)\<close>\<close>

definition dict_update :: "dict \<Rightarrow> dict \<Rightarrow> dict" where
  "dict_update d e = fold (\<lambda>(k, v). AList.update k v) e d"

text \<open>Python truth value of a scalar\<close>

fun truthy :: "jval \<Rightarrow> bool" where
  "truthy (JStr s) = (s \<noteq> [])"
| "truthy (JInt n) = (n \<noteq> 0)"
| "truthy (JBool b) = b"
| "truthy JNull = False"

text \<open>Python \<open>==\<close> on scalars: \<open>bool\<close> is a subclass of \<open>int\<close>, so \<open>True == 1\<close>.\<close>

fun py_eq :: "jval \<Rightarrow> jval \<Rightarrow> bool" where
  "py_eq (JBool b) (JInt n) = (n = (if b then 1 else 0))"
| "py_eq (JInt n) (JBool b) = (n = (if b then 1 else 0))"
| "py_eq a b = (a = b)"

text \<open>\<open>x in xs\<close> for a list \<open>xs\<close>\<close>

definition py_in :: "jval \<Rightarrow> jval list \<Rightarrow> bool" where
  "py_in x xs = list_ex (py_eq x) xs"

text \<open>\<open>str.lower()\<close> on ASCII\<close>

definition lower_char :: "char \<Rightarrow> char" where
  "lower_char c =
     (case map_of (zip ''ABCDEFGHIJKLMNOPQRSTUVWXYZ'' ''abcdefghijklmnopqrstuvwxyz'') c of
        None \<Rightarrow> c
      | Some l \<Rightarrow> l)"

definition lower :: "string \<Rightarrow> string" where
  "lower s = map lower_char s"

text \<open>\<open>s.split('_', 1)\<close>: one part when there is no underscore, else two\<close>

definition split1 :: "string \<Rightarrow> string list" where
  "split1 s =
     (case dropWhile (\<lambda>c. c \<noteq> CHR ''_'') s of
        [] \<Rightarrow> [s]
      | _ # rest \<Rightarrow> [takeWhile (\<lambda>c. c \<noteq> CHR ''_'') s, rest])"

text \<open>\<open>q in s\<close> for strings; \<open>s.startswith(q)\<close> is \<open>prefix q s\<close>\<close>

fun contains :: "string \<Rightarrow> string \<Rightarrow> bool" where
  "contains q [] = (q = [])"
| "contains q (c # cs) = (prefix q (c # cs) \<or> contains q cs)"

text \<open>\<open>s.replace('Z', '+00:00')\<close>\<close>

definition replace_Z :: "string \<Rightarrow> string" where
  "replace_Z s = concat (map (\<lambda>c. if c = CHR ''Z'' then ''+00:00'' else [c]) s)"

text \<open>
  \<open>Path(name).suffix\<close> for a name without a path separator: from the last dot, when
  that dot is neither the first nor the last character; empty otherwise.
\<close>

definition suffix_of :: "string \<Rightarrow> string" where
  "suffix_of name =
     (let after = rev (takeWhile (\<lambda>c. c \<noteq> CHR ''.'') (rev name))
      in if CHR ''.'' \<notin> set name \<or> after = [] \<or> length after + 1 = length name then []
         else CHR ''.'' # after)"

section \<open>config.py\<close>

record config =
  MAX_FILE_SIZE :: int
  ALLOWED_EXTENSIONS :: "string list"
  BLOCKED_EXTENSIONS :: "string list"

definition Config :: config where
  "Config = \<lparr>
     MAX_FILE_SIZE = 100 * 1024 * 1024,
     ALLOWED_EXTENSIONS =
       [''.jpg'', ''.jpeg'', ''.png'', ''.gif'', ''.bmp'', ''.svg'', ''.webp'', ''.ico'',
        ''.pdf'', ''.doc'', ''.docx'', ''.txt'', ''.rtf'', ''.odt'', ''.xls'', ''.xlsx'',
        ''.ppt'', ''.pptx'', ''.csv'', ''.mp4'', ''.avi'', ''.mov'', ''.wmv'', ''.flv'',
        ''.webm'', ''.mkv'', ''.m4v'', ''.mp3'', ''.wav'', ''.flac'', ''.aac'', ''.ogg'',
        ''.wma'', ''.m4a'', ''.zip'', ''.rar'', ''.7z'', ''.tar'', ''.gz'', ''.bz2'',
        ''.py'', ''.js'', ''.html'', ''.css'', ''.json'', ''.xml'', ''.sql'', ''.php'',
        ''.java'', ''.cpp'', ''.c'', ''.h''],
     BLOCKED_EXTENSIONS =
       [''.exe'', ''.sh'', ''.bat'', ''.cmd'', ''.msi'', ''.dll'', ''.scr'', ''.pif'',
        ''.vb'', ''.vbs'']
   \<rparr>"

definition FILE_TYPE_CATEGORIES :: "(string \<times> string) list" where
  "FILE_TYPE_CATEGORIES =
     map (\<lambda>e. (e, ''image''))
       [''.jpg'', ''.jpeg'', ''.png'', ''.gif'', ''.bmp'', ''.svg'', ''.webp'', ''.ico''] @
     map (\<lambda>e. (e, ''document''))
       [''.pdf'', ''.doc'', ''.docx'', ''.txt'', ''.rtf'', ''.odt'', ''.xls'', ''.xlsx'',
        ''.ppt'', ''.pptx'', ''.csv''] @
     map (\<lambda>e. (e, ''video''))
       [''.mp4'', ''.avi'', ''.mov'', ''.wmv'', ''.flv'', ''.webm'', ''.mkv'', ''.m4v''] @
     map (\<lambda>e. (e, ''audio''))
       [''.mp3'', ''.wav'', ''.flac'', ''.aac'', ''.ogg'', ''.wma'', ''.m4a''] @
     map (\<lambda>e. (e, ''archive''))
       [''.zip'', ''.rar'', ''.7z'', ''.tar'', ''.gz'', ''.bz2''] @
     map (\<lambda>e. (e, ''code''))
       [''.py'', ''.js'', ''.html'', ''.css'', ''.json'', ''.xml'', ''.sql'', ''.php'',
        ''.java'', ''.cpp'', ''.c'', ''.h'']"

definition PERMISSION_LEVELS :: "(string \<times> string) list" where
  "PERMISSION_LEVELS =
     [(''view'', ''View Only''), (''upload'', ''Upload Access''), (''full'', ''Full Access'')]"

text \<open>\<open>Config.get_file_size_category\<close>\<close>

definition get_file_size_category :: "int \<Rightarrow> string" where
  "get_file_size_category sz =
     (if sz < 1024 * 1024 then ''small''
      else if sz < 10 * 1024 * 1024 then ''medium''
      else ''large'')"

text \<open>\<open>Config.UPLOADS_DIR\<close>, relative to the installation directory\<close>

definition UPLOADS_DIR :: string where
  "UPLOADS_DIR = ''data/uploads''"

section \<open>The persistent state\<close>

text \<open>
  The four JSON files, the bucket directories \<open>UPLOADS_DIR/user_id/bucket_name\<close> (as
  pairs), the regular files below them (path and content), and the outcomes of the
  coming calls of \<open>_write_json\<close> (\<open>write_json\<close> below), in order: the write succeeds (\<open>WOk\<close>, also when the
  list is exhausted), fails before the file is opened for writing (\<open>WFail\<close>, the file
  keeps its content), or fails after it (\<open>WTrunc\<close>: the file is left incomplete, and
  \<open>_read_json\<close> (\<open>read_json\<close> below) reads an incomplete file as \<open>{}\<close>).
\<close>

datatype write_outcome = WOk | WFail | WTrunc

datatype json_file = USERS_FILE | PERMISSIONS_FILE | SEARCH_INDEX_FILE | FILE_METADATA_FILE

record state =
  users :: collection
  permissions :: collection
  search_index :: collection
  file_metadata :: collection
  bucket_dirs :: "(string \<times> string) list"
  files :: "(string \<times> string) list"
  io :: "write_outcome list"

section \<open>database.py\<close>

fun read_json :: "state \<Rightarrow> json_file \<Rightarrow> collection" where
  "read_json st USERS_FILE = users st"
| "read_json st PERMISSIONS_FILE = permissions st"
| "read_json st SEARCH_INDEX_FILE = search_index st"
| "read_json st FILE_METADATA_FILE = file_metadata st"

fun store :: "json_file \<Rightarrow> collection \<Rightarrow> state \<Rightarrow> state" where
  "store USERS_FILE d st = st\<lparr>users := d\<rparr>"
| "store PERMISSIONS_FILE d st = st\<lparr>permissions := d\<rparr>"
| "store SEARCH_INDEX_FILE d st = st\<lparr>search_index := d\<rparr>"
| "store FILE_METADATA_FILE d st = st\<lparr>file_metadata := d\<rparr>"

definition write_json :: "state \<Rightarrow> json_file \<Rightarrow> collection \<Rightarrow> bool \<times> state" where
  "write_json st f d =
     (case io st of
        [] \<Rightarrow> (True, store f d st)
      | WOk # rest \<Rightarrow> (True, store f d (st\<lparr>io := rest\<rparr>))
      | WFail # rest \<Rightarrow> (False, st\<lparr>io := rest\<rparr>)
      | WTrunc # rest \<Rightarrow> (False, store f [] (st\<lparr>io := rest\<rparr>)))"

text \<open>The loop of \<open>get_user_by_email\<close> over \<open>users.values()\<close>\<close>

fun find_by_email :: "dict list \<Rightarrow> string \<Rightarrow> error + dict option" where
  "find_by_email [] email = Inr None"
| "find_by_email (user_data # rest) email =
     (case subscript user_data ''email'' of
        Inl e \<Rightarrow> Inl e
      | Inr v \<Rightarrow> if v = JStr email then Inr (Some user_data) else find_by_email rest email)"

definition get_user_by_email :: "state \<Rightarrow> string \<Rightarrow> error + dict option" where
  "get_user_by_email st email = find_by_email (map snd (read_json st USERS_FILE)) email"

definition get_user_buckets :: "state \<Rightarrow> string \<Rightarrow> string list" where
  "get_user_buckets st user_id = map snd (filter (\<lambda>(u, b). u = user_id) (bucket_dirs st))"

definition add_permission ::
  "state \<Rightarrow> string \<Rightarrow> string \<Rightarrow> string \<Rightarrow> string \<Rightarrow> string \<Rightarrow> bool \<times> state" where
  "add_permission st now_iso bucket_id owner_id shared_with permission_level =
     (let permissions = read_json st PERMISSIONS_FILE;
          permission_id = bucket_id @ ''_'' @ shared_with;
          permission_data =
            [(''bucket_id'', JStr bucket_id),
             (''owner'', JStr owner_id),
             (''shared_with'', JStr shared_with),
             (''permission_level'', JStr permission_level),
             (''created_date'', JStr now_iso)]
      in write_json st PERMISSIONS_FILE (AList.update permission_id permission_data permissions))"

definition get_permission :: "state \<Rightarrow> string \<Rightarrow> string \<Rightarrow> dict option" where
  "get_permission st bucket_id user_id =
     map_of (read_json st PERMISSIONS_FILE) (bucket_id @ ''_'' @ user_id)"

definition get_shared_buckets_for_user :: "state \<Rightarrow> string \<Rightarrow> dict list" where
  "get_shared_buckets_for_user st user_id =
     filter (\<lambda>perm. dget perm ''shared_with'' = JStr user_id)
       (map snd (read_json st PERMISSIONS_FILE))"

definition get_permissions_by_bucket :: "state \<Rightarrow> string \<Rightarrow> dict list" where
  "get_permissions_by_bucket st bucket_id =
     filter (\<lambda>perm. dget perm ''bucket_id'' = JStr bucket_id)
       (map snd (read_json st PERMISSIONS_FILE))"

definition update_permission :: "state \<Rightarrow> string \<Rightarrow> string \<Rightarrow> string \<Rightarrow> bool \<times> state" where
  "update_permission st bucket_id user_id permission_level =
     (let permissions = read_json st PERMISSIONS_FILE;
          permission_id = bucket_id @ ''_'' @ user_id
      in case map_of permissions permission_id of
           Some perm \<Rightarrow>
             write_json st PERMISSIONS_FILE
               (AList.update permission_id
                  (AList.update ''permission_level'' (JStr permission_level) perm) permissions)
         | None \<Rightarrow> (False, st))"

section \<open>permissions.py\<close>

text \<open>
  The messages of the program, one constructor for each text; a formatted part is the
  constructor's argument.
\<close>

datatype message =
    InvalidPermissionLevel
  | OnlyShareOwnBuckets
  | UserNotFound
  | CannotShareWithYourself
  | PermissionUpdatedTo string
  | FailedToUpdatePermission
  | BucketSharedWith string
  | FailedToShareBucket
  | NoFileProvided
  | FileTooLarge int
  | FileTypeNotAllowed "string list"
  | NotAllowedForSecurityReasons
  | FileValid
  | BucketNotFoundOrAccessDenied
  | FailedToSaveFileMetadata
  | FileUploadedSuccessfully
  | FailedToUploadFile error
  | BucketDeletedSuccessfully
  | FailedToDeleteBucket error
  | FileNotFound
  | InsufficientPermissionsToRename
  | InvalidFileName
  | FileRenamedSuccessfully
  | FailedToUpdateFileName

definition share_bucket ::
  "state \<Rightarrow> string \<Rightarrow> string \<Rightarrow> string \<Rightarrow> string \<Rightarrow> string \<Rightarrow>
   error + ((bool \<times> message) \<times> state)" where
  "share_bucket st now_iso owner_id bucket_id shared_with_email permission_level =
     (case map_of PERMISSION_LEVELS permission_level of
        None \<Rightarrow> Inr ((False, InvalidPermissionLevel), st)
      | Some level_name \<Rightarrow>
          let bucket_parts = split1 bucket_id in
          if length bucket_parts \<noteq> 2 \<or> hd bucket_parts \<noteq> owner_id
          then Inr ((False, OnlyShareOwnBuckets), st)
          else
            (case get_user_by_email st shared_with_email of
               Inl e \<Rightarrow> Inl e
             | Inr None \<Rightarrow> Inr ((False, UserNotFound), st)
             | Inr (Some shared_user) \<Rightarrow>
                 if shared_user = [] then Inr ((False, UserNotFound), st)
                 else
                   (case subscript_str shared_user ''user_id'' of
                      Inl e \<Rightarrow> Inl e
                    | Inr shared_user_id \<Rightarrow>
                        if shared_user_id = owner_id
                        then Inr ((False, CannotShareWithYourself), st)
                        else
                          (case get_permission st bucket_id shared_user_id of
                             Some (_ # _) \<Rightarrow>
                               (case update_permission st bucket_id shared_user_id permission_level of
                                  (True, st') \<Rightarrow> Inr ((True, PermissionUpdatedTo level_name), st')
                                | (False, st') \<Rightarrow> Inr ((False, FailedToUpdatePermission), st'))
                           | _ \<Rightarrow>
                               (case add_permission st now_iso bucket_id owner_id shared_user_id
                                       permission_level of
                                  (True, st') \<Rightarrow> Inr ((True, BucketSharedWith level_name), st')
                                | (False, st') \<Rightarrow> Inr ((False, FailedToShareBucket), st'))))))"

definition check_permission_level :: "state \<Rightarrow> string \<Rightarrow> string \<Rightarrow> error + jval" where
  "check_permission_level st user_id bucket_id =
     (let bucket_parts = split1 bucket_id in
      if length bucket_parts = 2 \<and> hd bucket_parts = user_id then Inr (JStr ''owner'')
      else
        (case get_permission st bucket_id user_id of
           Some (kv # kvs) \<Rightarrow> subscript (kv # kvs) ''permission_level''
         | _ \<Rightarrow> Inr (JStr ''none'')))"

definition can_perform_action :: "state \<Rightarrow> string \<Rightarrow> string \<Rightarrow> string \<Rightarrow> error + bool" where
  "can_perform_action st user_id bucket_id action =
     (case check_permission_level st user_id bucket_id of
        Inl e \<Rightarrow> Inl e
      | Inr permission_level \<Rightarrow>
          if permission_level = JStr ''owner'' then Inr True
          else if permission_level = JStr ''full'' then Inr True
          else if permission_level = JStr ''upload'' then Inr (action \<in> set [''view'', ''upload''])
          else if permission_level = JStr ''view'' then Inr (action = ''view'')
          else Inr False)"


section \<open>More of database.py: object metadata and the search index\<close>

text \<open>The dictionary \<open>{k: d[k] for k in ks}\<close>, built in the order of \<open>ks\<close>\<close>

fun project :: "dict \<Rightarrow> string list \<Rightarrow> error + dict" where
  "project d [] = Inr []"
| "project d (k # ks) =
     (case subscript d k of
        Inl e \<Rightarrow> Inl e
      | Inr v \<Rightarrow> (case project d ks of Inl e \<Rightarrow> Inl e | Inr r \<Rightarrow> Inr ((k, v) # r)))"

text \<open>
  \<open>add_file_metadata\<close>; \<open>fresh\<close> is the value of \<open>str(uuid.uuid4())\<close>. The id is the key
  of a JSON object, so an id that is not a string is a \<open>TypeError\<close> here.
\<close>

definition add_file_metadata :: "state \<Rightarrow> string \<Rightarrow> dict \<Rightarrow> error + (bool \<times> state)" where
  "add_file_metadata st fresh file_info0 =
     (let metadata = read_json st FILE_METADATA_FILE;
          search_index = read_json st SEARCH_INDEX_FILE;
          file_id = (case map_of file_info0 ''file_id'' of None \<Rightarrow> JStr fresh | Some v \<Rightarrow> v);
          file_info = AList.update ''file_id'' file_id file_info0
      in case file_id of
           JStr fid \<Rightarrow>
             (case project file_info
                     [''file_name'', ''file_type'', ''size'', ''upload_date'', ''bucket_id'',
                      ''user_id''] of
                Inl e \<Rightarrow> Inl e
              | Inr search_data \<Rightarrow>
                  (case write_json st FILE_METADATA_FILE (AList.update fid file_info metadata) of
                     (success1, st1) \<Rightarrow>
                       (case write_json st1 SEARCH_INDEX_FILE
                               (AList.update fid search_data search_index) of
                          (success2, st2) \<Rightarrow> Inr (success1 \<and> success2, st2))))
         | _ \<Rightarrow> Inl TypeError)"

definition get_file_metadata :: "state \<Rightarrow> string \<Rightarrow> dict option" where
  "get_file_metadata st file_id = map_of (read_json st FILE_METADATA_FILE) file_id"

definition get_user_by_id :: "state \<Rightarrow> string \<Rightarrow> dict option" where
  "get_user_by_id st user_id = map_of (read_json st USERS_FILE) user_id"

definition get_files_by_bucket :: "state \<Rightarrow> string \<Rightarrow> dict list" where
  "get_files_by_bucket st bucket_id =
     filter (\<lambda>file_data. dget file_data ''bucket_id'' = JStr bucket_id)
       (map snd (read_json st FILE_METADATA_FILE))"

text \<open>\<open>if k in d: del d[k]\<close>; the keys of \<open>d\<close> are strings, so another value is no key\<close>

fun del_key :: "jval \<Rightarrow> collection \<Rightarrow> collection" where
  "del_key (JStr k) d = AList.delete k d"
| "del_key _ d = d"

definition delete_file_metadata :: "state \<Rightarrow> jval \<Rightarrow> bool \<times> state" where
  "delete_file_metadata st file_id =
     (let metadata = del_key file_id (read_json st FILE_METADATA_FILE);
          search_index = del_key file_id (read_json st SEARCH_INDEX_FILE)
      in case write_json st FILE_METADATA_FILE metadata of
           (success1, st1) \<Rightarrow>
             (case write_json st1 SEARCH_INDEX_FILE search_index of
                (success2, st2) \<Rightarrow> (success1 \<and> success2, st2)))"

text \<open>
  The loop of \<open>delete_bucket_metadata\<close>: the result of each \<open>delete_file_metadata\<close> is
  dropped; a record without \<open>file_id\<close> raises with the earlier deletions done.
\<close>

fun delete_all :: "state \<Rightarrow> dict list \<Rightarrow> (error + bool) \<times> state" where
  "delete_all st [] = (Inr True, st)"
| "delete_all st (file_data # rest) =
     (case subscript file_data ''file_id'' of
        Inl e \<Rightarrow> (Inl e, st)
      | Inr file_id \<Rightarrow> delete_all (snd (delete_file_metadata st file_id)) rest)"

definition delete_bucket_metadata :: "state \<Rightarrow> string \<Rightarrow> string \<Rightarrow> (error + bool) \<times> state" where
  "delete_bucket_metadata st user_id bucket_name =
     (let bucket_id = user_id @ ''_'' @ bucket_name;
          files_in_bucket = get_files_by_bucket st bucket_id
      in delete_all st files_in_bucket)"

section \<open>storage.py\<close>

text \<open>
  A werkzeug \<open>FileStorage\<close>: the client's file name (empty when there is none), the
  declared length (0 when there is none) and the bytes. \<open>secure_filename\<close> belongs to
  werkzeug and is a parameter of the functions that call it.
\<close>

record FileStorage =
  filename :: string
  content_length :: int
  stream :: string

definition validate_file ::
  "config \<Rightarrow> (string \<Rightarrow> string) \<Rightarrow> FileStorage option \<Rightarrow> bool \<times> message" where
  "validate_file cfg secure_filename file =
     (case file of
        None \<Rightarrow> (False, NoFileProvided)
      | Some f \<Rightarrow>
          if filename f = [] then (False, NoFileProvided)
          else if content_length f \<noteq> 0 \<and> content_length f > MAX_FILE_SIZE cfg
          then (False, FileTooLarge (MAX_FILE_SIZE cfg))
          else
            let file_ext = lower (suffix_of (secure_filename (filename f))) in
            if ALLOWED_EXTENSIONS cfg \<noteq> [] \<and> file_ext \<notin> set (ALLOWED_EXTENSIONS cfg)
            then (False, FileTypeNotAllowed (ALLOWED_EXTENSIONS cfg))
            else if file_ext \<in> set (BLOCKED_EXTENSIONS cfg)
            then (False, NotAllowedForSecurityReasons)
            else (True, FileValid))"

text \<open>
  \<open>_get_file_type\<close>: the loop names the key of \<open>FILE_TYPE_CATEGORIES\<close> (an extension)
  \<open>category\<close> and its value (a category name) \<open>extensions\<close>, and tests
  \<open>file_ext in extensions\<close>, a substring test.
\<close>

definition get_file_type :: "string \<Rightarrow> string" where
  "get_file_type fname =
     (let file_ext = lower (suffix_of fname)
      in case find (\<lambda>(category, extensions). contains file_ext extensions) FILE_TYPE_CATEGORIES of
           Some (category, extensions) \<Rightarrow> category
         | None \<Rightarrow> ''other'')"

definition check_bucket_access :: "state \<Rightarrow> string \<Rightarrow> string \<Rightarrow> string \<Rightarrow> error + bool" where
  "check_bucket_access st user_id bucket_id action =
     (let bucket_parts = split1 bucket_id in
      if length bucket_parts \<noteq> 2 then Inr False
      else if hd bucket_parts = user_id then Inr True
      else
        (case get_permission st bucket_id user_id of
           Some (kv # kvs) \<Rightarrow>
             (case subscript (kv # kvs) ''permission_level'' of
                Inl e \<Rightarrow> Inl e
              | Inr permission_level \<Rightarrow>
                  if action = ''view''
                  then Inr (permission_level \<in> set [JStr ''view'', JStr ''upload'', JStr ''full''])
                  else if action = ''upload''
                  then Inr (permission_level \<in> set [JStr ''upload'', JStr ''full''])
                  else if action = ''full'' then Inr (permission_level = JStr ''full'')
                  else Inr False)
         | _ \<Rightarrow> Inr False))"

text \<open>\<open>str(Config.UPLOADS_DIR / user_id / bucket_name)\<close>, for components without \<open>/\<close>\<close>

definition bucket_path_of :: "string \<Rightarrow> string \<Rightarrow> string" where
  "bucket_path_of user_id bucket_name = UPLOADS_DIR @ ''/'' @ user_id @ ''/'' @ bucket_name"

text \<open>
  What one upload takes from its environment: the new uuid, the clock reading in ISO
  format, and whether \<open>file.save\<close> works. A failed save raises; it may leave a file
  with part of the bytes (\<open>SaveFailed (Some part)\<close>) or none.
\<close>

datatype save_outcome = SaveOk | SaveFailed "string option"

record upload_env =
  new_id :: string
  now_iso :: string
  save :: save_outcome

definition upload_file ::
  "config \<Rightarrow> (string \<Rightarrow> string) \<Rightarrow> state \<Rightarrow> upload_env \<Rightarrow> string \<Rightarrow> string \<Rightarrow>
   FileStorage option \<Rightarrow> (bool \<times> message \<times> dict) \<times> state" where
  "upload_file cfg secure_filename st env user_id bucket_name file =
     (case file of
        None \<Rightarrow> ((False, NoFileProvided, []), st)
      | Some f \<Rightarrow>
          if filename f = [] then ((False, NoFileProvided, []), st)
          else if bucket_name \<notin> set (get_user_buckets st user_id)
          then ((False, BucketNotFoundOrAccessDenied, []), st)
          else
            (case validate_file cfg secure_filename file of
               (False, msg) \<Rightarrow> ((False, msg, []), st)
             | (True, _) \<Rightarrow>
                 let original_filename = secure_filename (filename f);
                     file_id = new_id env;
                     file_extension = suffix_of original_filename;
                     unique_filename = file_id @ file_extension;
                     bucket_path = bucket_path_of user_id bucket_name;
                     st0 = st\<lparr>bucket_dirs := List.insert (user_id, bucket_name) (bucket_dirs st)\<rparr>;
                     file_path = bucket_path @ ''/'' @ unique_filename
                 in
                 (case save env of
                    SaveFailed None \<Rightarrow> ((False, FailedToUploadFile IOError, []), st0)
                  | SaveFailed (Some part) \<Rightarrow>
                      ((False, FailedToUploadFile IOError, []),
                       st0\<lparr>files := AList.update file_path part (files st0)\<rparr>)
                  | SaveOk \<Rightarrow>
                      let st1 = st0\<lparr>files := AList.update file_path (stream f) (files st0)\<rparr>;
                          file_size = int (length (stream f));
                          file_type = get_file_type original_filename;
                          bucket_id = user_id @ ''_'' @ bucket_name;
                          file_metadata =
                            [(''file_id'', JStr file_id),
                             (''file_name'', JStr original_filename),
                             (''stored_filename'', JStr unique_filename),
                             (''file_type'', JStr file_type),
                             (''size'', JInt file_size),
                             (''upload_date'', JStr (now_iso env)),
                             (''bucket_id'', JStr bucket_id),
                             (''bucket_name'', JStr bucket_name),
                             (''user_id'', JStr user_id),
                             (''file_path'', JStr file_path)]
                      in
                      (case add_file_metadata st1 file_id file_metadata of
                         Inl e \<Rightarrow> ((False, FailedToUploadFile e, []), st1)
                       | Inr (False, st2) \<Rightarrow>
                           ((False, FailedToSaveFileMetadata, []),
                            st2\<lparr>files := AList.delete file_path (files st2)\<rparr>)
                       | Inr (True, st2) \<Rightarrow>
                           ((True, FileUploadedSuccessfully, file_metadata), st2)))))"

text \<open>
  \<open>delete_bucket\<close>; \<open>shutil.rmtree\<close> removes the directory and every file below it.
\<close>

definition delete_bucket :: "state \<Rightarrow> string \<Rightarrow> string \<Rightarrow> (bool \<times> message) \<times> state" where
  "delete_bucket st user_id bucket_name =
     (if bucket_name \<notin> set (get_user_buckets st user_id)
      then ((False, BucketNotFoundOrAccessDenied), st)
      else
        let bucket_path = bucket_path_of user_id bucket_name;
            st1 = st\<lparr>bucket_dirs := removeAll (user_id, bucket_name) (bucket_dirs st),
                     files := filter (\<lambda>(p, c). \<not> prefix (bucket_path @ ''/'') p) (files st)\<rparr>
        in case delete_bucket_metadata st1 user_id bucket_name of
             (Inl e, st2) \<Rightarrow> ((False, FailedToDeleteBucket e), st2)
           | (Inr _, st2) \<Rightarrow> ((True, BucketDeletedSuccessfully), st2))"

text \<open>
  \<open>rename_file\<close>. \<open>str.strip\<close> belongs to Python: it removes the leading and trailing
  whitespace of a string, Unicode whitespace included, and is a parameter here.
\<close>

definition rename_file ::
  "(string \<Rightarrow> string) \<Rightarrow> state \<Rightarrow> string \<Rightarrow> string \<Rightarrow> string \<Rightarrow>
   error + ((bool \<times> message) \<times> state)" where
  "rename_file strip st user_id file_id new_name =
     (case get_file_metadata st file_id of
        Some (kv # kvs) \<Rightarrow>
          (case subscript_str (kv # kvs) ''bucket_id'' of
             Inl e \<Rightarrow> Inl e
           | Inr bucket_id \<Rightarrow>
               (case check_bucket_access st user_id bucket_id ''full'' of
                  Inl e \<Rightarrow> Inl e
                | Inr False \<Rightarrow> Inr ((False, InsufficientPermissionsToRename), st)
                | Inr True \<Rightarrow>
                    if new_name = [] \<or> length (strip new_name) = 0
                    then Inr ((False, InvalidFileName), st)
                    else
                      let updates = [(''file_name'', JStr (strip new_name))];
                          metadata0 = read_json st FILE_METADATA_FILE;
                          search_index0 = read_json st SEARCH_INDEX_FILE;
                          metadata =
                            (case map_of metadata0 file_id of
                               Some r \<Rightarrow> AList.update file_id (dict_update r updates) metadata0
                             | None \<Rightarrow> metadata0);
                          search_index =
                            (case map_of search_index0 file_id of
                               Some r \<Rightarrow>
                                 AList.update file_id
                                   (AList.update ''file_name'' (JStr (strip new_name)) r)
                                   search_index0
                             | None \<Rightarrow> search_index0)
                      in
                      (case write_json st FILE_METADATA_FILE metadata of
                         (success1, st1) \<Rightarrow>
                           (case write_json st1 SEARCH_INDEX_FILE search_index of
                              (success2, st2) \<Rightarrow>
                                if success1 \<and> success2
                                then Inr ((True, FileRenamedSuccessfully), st2)
                                else Inr ((False, FailedToUpdateFileName), st2)))))
      | _ \<Rightarrow> Inr ((False, FileNotFound), st))"


section \<open>Search: database.py and search.py\<close>

text \<open>
  A \<open>datetime\<close>: the wall-clock reading in microseconds since the start of day 0, and
  the UTC offset when the value is timezone-aware. \<open>datetime.fromisoformat\<close> belongs to
  the Python library and is a parameter (\<open>None\<close> when it raises); \<open>datetime.now()\<close> is
  the naive reading \<open>now\<close>, taken once for one search.
\<close>

record datetime =
  wall :: int
  utcoffset :: "int option"

definition day_us :: int where
  "day_us = 86400000000"

text \<open>\<open>dt.date()\<close> as a day number\<close>

definition date_of :: "int \<Rightarrow> int" where
  "date_of w = w div day_us"

text \<open>
  \<open>(now - dt).days\<close>: subtracting an aware value from the naive \<open>now\<close> raises; \<open>days\<close>
  of a \<open>timedelta\<close> is the floor of the difference in days.
\<close>

definition days_since :: "int \<Rightarrow> datetime \<Rightarrow> int option" where
  "days_since now dt =
     (case utcoffset dt of None \<Rightarrow> Some ((now - wall dt) div day_us) | Some _ \<Rightarrow> None)"

definition check_date_range ::
  "(string \<Rightarrow> datetime option) \<Rightarrow> int \<Rightarrow> jval \<Rightarrow> jval \<Rightarrow> bool" where
  "check_date_range fromisoformat now upload_date date_range =
     (if \<not> truthy upload_date then False
      else
        (case upload_date of
           JStr s \<Rightarrow>
             (case fromisoformat (replace_Z s) of
                None \<Rightarrow> False
              | Some upload_dt \<Rightarrow>
                  if date_range = JStr ''today'' then date_of (wall upload_dt) = date_of now
                  else if date_range = JStr ''week''
                  then (case days_since now upload_dt of None \<Rightarrow> False | Some d \<Rightarrow> d \<le> 7)
                  else if date_range = JStr ''month''
                  then (case days_since now upload_dt of None \<Rightarrow> False | Some d \<Rightarrow> d \<le> 30)
                  else if date_range = JStr ''year''
                  then (case days_since now upload_dt of None \<Rightarrow> False | Some d \<Rightarrow> d \<le> 365)
                  else True)
         | _ \<Rightarrow> False))"

text \<open>A stored value where the source needs a number\<close>

fun as_int :: "jval \<Rightarrow> error + int" where
  "as_int (JInt n) = Inr n"
| "as_int (JBool b) = Inr (if b then 1 else 0)"
| "as_int _ = Inl TypeError"

definition apply_filters ::
  "(string \<Rightarrow> datetime option) \<Rightarrow> int \<Rightarrow> dict \<Rightarrow> dict \<Rightarrow> dict \<Rightarrow> error + bool" where
  "apply_filters fromisoformat now search_data metadata filters =
     (if truthy (dget filters ''file_type'') \<and>
         \<not> py_eq (dget search_data ''file_type'') (dget filters ''file_type'')
      then Inr False
      else
        (case (if truthy (dget filters ''size_category'')
               then (case as_int (case map_of search_data ''size'' of None \<Rightarrow> JInt 0 | Some v \<Rightarrow> v) of
                       Inl e \<Rightarrow> Inl e
                     | Inr file_size \<Rightarrow>
                         Inr (JStr (get_file_size_category file_size) = dget filters ''size_category''))
               else Inr True) of
           Inl e \<Rightarrow> Inl e
         | Inr False \<Rightarrow> Inr False
         | Inr True \<Rightarrow>
             if truthy (dget filters ''date_range'') \<and>
                \<not> check_date_range fromisoformat now (dget search_data ''upload_date'')
                     (dget filters ''date_range'')
             then Inr False
             else if truthy (dget filters ''bucket_id'') \<and>
                     \<not> py_eq (dget search_data ''bucket_id'') (dget filters ''bucket_id'')
             then Inr False
             else Inr True))"

text \<open>The list \<open>[d[k] for d in ds]\<close>\<close>

fun subscripts :: "dict list \<Rightarrow> string \<Rightarrow> error + jval list" where
  "subscripts [] k = Inr []"
| "subscripts (d # ds) k =
     (case subscript d k of
        Inl e \<Rightarrow> Inl e
      | Inr v \<Rightarrow> (case subscripts ds k of Inl e \<Rightarrow> Inl e | Inr vs \<Rightarrow> Inr (v # vs)))"

definition get_accessible_bucket_ids :: "state \<Rightarrow> string \<Rightarrow> error + jval list" where
  "get_accessible_bucket_ids st user_id =
     (let user_buckets = get_user_buckets st user_id;
          owned = map (\<lambda>bucket. JStr (user_id @ ''_'' @ bucket)) user_buckets;
          shared_buckets = get_shared_buckets_for_user st user_id
      in case subscripts shared_buckets ''bucket_id'' of
           Inl e \<Rightarrow> Inl e
         | Inr shared \<Rightarrow> Inr (owned @ shared))"

text \<open>
  One round of the loop of \<open>Database.search_files\<close>: \<open>Inr None\<close> is \<open>continue\<close>,
  \<open>Inr (Some r)\<close> appends \<open>r\<close>.
\<close>

definition search_step ::
  "(string \<Rightarrow> datetime option) \<Rightarrow> int \<Rightarrow> collection \<Rightarrow> jval list \<Rightarrow> string \<Rightarrow> dict option \<Rightarrow>
   string \<Rightarrow> dict \<Rightarrow> error + dict option" where
  "search_step fromisoformat now metadata accessible_bucket_ids query filters file_id search_data =
     (case subscript search_data ''bucket_id'' of
        Inl e \<Rightarrow> Inl e
      | Inr bucket_id \<Rightarrow>
          if \<not> py_in bucket_id accessible_bucket_ids then Inr None
          else
            (case (if query \<noteq> []
                   then (case subscript_str search_data ''file_name'' of
                           Inl e \<Rightarrow> Inl e
                         | Inr file_name \<Rightarrow> Inr (contains (lower query) (lower file_name)))
                   else Inr True) of
               Inl e \<Rightarrow> Inl e
             | Inr False \<Rightarrow> Inr None
             | Inr True \<Rightarrow>
                 let found = (case map_of metadata file_id of None \<Rightarrow> [] | Some m \<Rightarrow> m) in
                 (case (case filters of
                          Some (kv # kvs) \<Rightarrow>
                            apply_filters fromisoformat now search_data found (kv # kvs)
                        | _ \<Rightarrow> Inr True) of
                    Inl e \<Rightarrow> Inl e
                  | Inr False \<Rightarrow> Inr None
                  | Inr True \<Rightarrow> Inr (Some (dict_update found search_data)))))"

fun search_loop ::
  "(string \<Rightarrow> datetime option) \<Rightarrow> int \<Rightarrow> collection \<Rightarrow> jval list \<Rightarrow> string \<Rightarrow> dict option \<Rightarrow>
   collection \<Rightarrow> error + dict list" where
  "search_loop fromisoformat now metadata acc query filters [] = Inr []"
| "search_loop fromisoformat now metadata acc query filters ((file_id, search_data) # rest) =
     (case search_step fromisoformat now metadata acc query filters file_id search_data of
        Inl e \<Rightarrow> Inl e
      | Inr r \<Rightarrow>
          (case search_loop fromisoformat now metadata acc query filters rest of
             Inl e \<Rightarrow> Inl e
           | Inr results \<Rightarrow> Inr (case r of None \<Rightarrow> results | Some x \<Rightarrow> x # results)))"

text \<open>\<open>Database.search_files\<close>\<close>

definition db_search_files ::
  "(string \<Rightarrow> datetime option) \<Rightarrow> int \<Rightarrow> state \<Rightarrow> string \<Rightarrow> string \<Rightarrow> dict option \<Rightarrow>
   error + dict list" where
  "db_search_files fromisoformat now st query user_id filters =
     (let search_index = read_json st SEARCH_INDEX_FILE;
          metadata = read_json st FILE_METADATA_FILE
      in case get_accessible_bucket_ids st user_id of
           Inl e \<Rightarrow> Inl e
         | Inr accessible_bucket_ids \<Rightarrow>
             search_loop fromisoformat now metadata accessible_bucket_ids query filters search_index)"

text \<open>\<open>_get_days_ago\<close>: the timezone is dropped before subtracting; 999 on any exception\<close>

definition get_days_ago :: "(string \<Rightarrow> datetime option) \<Rightarrow> int \<Rightarrow> jval \<Rightarrow> int" where
  "get_days_ago fromisoformat now date_string =
     (case date_string of
        JStr s \<Rightarrow>
          (case fromisoformat (replace_Z s) of
             None \<Rightarrow> 999
           | Some dt \<Rightarrow> (now - wall dt) div day_us)
      | _ \<Rightarrow> 999)"

text \<open>
  One round of \<open>_enrich_search_results\<close>. The fields \<open>size_human\<close>, \<open>upload_date_human\<close>
  and \<open>file_type_display\<close> (formatted text, nothing reads them) are left out; a size
  that is no number raises in \<open>_format_file_size\<close> or in \<open>get_file_size_category\<close>.
\<close>

definition enrich_one ::
  "(string \<Rightarrow> datetime option) \<Rightarrow> int \<Rightarrow> state \<Rightarrow> dict \<Rightarrow> error + dict" where
  "enrich_one fromisoformat now st file_data =
     (case as_int (case map_of file_data ''size'' of None \<Rightarrow> JInt 0 | Some v \<Rightarrow> v) of
        Inl e \<Rightarrow> Inl e
      | Inr file_size \<Rightarrow>
          let e1 = AList.update ''size_category'' (JStr (get_file_size_category file_size)) file_data;
              upload_date = dget file_data ''upload_date'';
              e2 = (if truthy upload_date
                    then AList.update ''days_ago''
                           (JInt (get_days_ago fromisoformat now upload_date)) e1
                    else e1);
              bucket_id = (case map_of file_data ''bucket_id'' of None \<Rightarrow> JStr [] | Some v \<Rightarrow> v)
          in
          if \<not> truthy bucket_id then Inr e2
          else
            (case bucket_id of
               JStr b \<Rightarrow>
                 (case split1 b of
                    [owner_id, bucket_name] \<Rightarrow>
                      let is_own_file = (JStr owner_id = dget file_data ''user_id'');
                          e3 = AList.update ''is_own_file'' (JBool is_own_file)
                                 (AList.update ''bucket_name'' (JStr bucket_name) e2)
                      in
                      if is_own_file then Inr e3
                      else
                        (case get_user_by_id st owner_id of
                           Some (kv # kvs) \<Rightarrow>
                             Inr (AList.update ''bucket_owner''
                                    (case map_of (kv # kvs) ''email'' of
                                       None \<Rightarrow> JStr ''Unknown''
                                     | Some v \<Rightarrow> v) e3)
                         | _ \<Rightarrow> Inr e3)
                  | _ \<Rightarrow> Inr e2)
             | _ \<Rightarrow> Inl TypeError))"

fun enrich_search_results ::
  "(string \<Rightarrow> datetime option) \<Rightarrow> int \<Rightarrow> state \<Rightarrow> dict list \<Rightarrow> error + dict list" where
  "enrich_search_results fromisoformat now st [] = Inr []"
| "enrich_search_results fromisoformat now st (file_data # rest) =
     (case enrich_one fromisoformat now st file_data of
        Inl e \<Rightarrow> Inl e
      | Inr x \<Rightarrow>
          (case enrich_search_results fromisoformat now st rest of
             Inl e \<Rightarrow> Inl e
           | Inr xs \<Rightarrow> Inr (x # xs)))"

text \<open>
  The sort key \<open>x.get('upload_date', '')\<close>. The program writes strings there, which
  Python compares byte by byte; a value of another type is a \<open>TypeError\<close> here (Python
  raises it when two keys that do not compare meet).
\<close>

definition date_key :: "dict \<Rightarrow> error + string" where
  "date_key x =
     (case map_of x ''upload_date'' of
        None \<Rightarrow> Inr []
      | Some (JStr s) \<Rightarrow> Inr s
      | Some _ \<Rightarrow> Inl TypeError)"

text \<open>\<open>calculate_relevance_score\<close>, for the lowered query\<close>

definition calculate_relevance_score :: "string \<Rightarrow> dict \<Rightarrow> error + int" where
  "calculate_relevance_score query_lower file_data =
     (case (case map_of file_data ''file_name'' of None \<Rightarrow> JStr [] | Some v \<Rightarrow> v) of
        JStr name \<Rightarrow>
          (case as_int (case map_of file_data ''days_ago'' of None \<Rightarrow> JInt 999 | Some v \<Rightarrow> v) of
             Inl e \<Rightarrow> Inl e
           | Inr days_ago \<Rightarrow>
               let filename = lower name;
                   match = (if query_lower = filename then 100
                            else if prefix query_lower filename then 50
                            else if contains query_lower filename then 25
                            else 0);
                   recent = (if days_ago \<le> 7 then 10 else if days_ago \<le> 30 then 5 else 0);
                   own = (if truthy (case map_of file_data ''is_own_file'' of
                                       None \<Rightarrow> JBool False | Some v \<Rightarrow> v)
                          then 5 else 0)
               in Inr (match + recent + own))
      | _ \<Rightarrow> Inl TypeError)"

text \<open>The keys of all elements, in order; the first exception wins.\<close>

fun keys_of :: "('a \<Rightarrow> error + 'k) \<Rightarrow> 'a list \<Rightarrow> error + 'k list" where
  "keys_of key [] = Inr []"
| "keys_of key (x # xs) =
     (case key x of
        Inl e \<Rightarrow> Inl e
      | Inr k \<Rightarrow> (case keys_of key xs of Inl e \<Rightarrow> Inl e | Inr ks \<Rightarrow> Inr (k # ks)))"

text \<open>
  \<open>sorted(xs, key=..., reverse=True)\<close> on the computed keys: a stable sort, so equal
  keys keep the order of \<open>xs\<close> also in reverse.
\<close>

definition sorted_reverse :: "('k::linorder) list \<Rightarrow> 'a list \<Rightarrow> 'a list" where
  "sorted_reverse ks xs = map snd (rev (sort_key fst (rev (zip ks xs))))"

definition sort_search_results :: "dict list \<Rightarrow> string \<Rightarrow> error + dict list" where
  "sort_search_results results query =
     (if query = [] \<or> results = []
      then (case keys_of date_key results of
              Inl e \<Rightarrow> Inl e
            | Inr ks \<Rightarrow> Inr (sorted_reverse ks results))
      else
        (case keys_of (\<lambda>x. case calculate_relevance_score (lower query) x of
                              Inl e \<Rightarrow> Inl e
                            | Inr score \<Rightarrow>
                                (case date_key x of Inl e \<Rightarrow> Inl e | Inr d \<Rightarrow> Inr (score, d)))
                 results of
           Inl e \<Rightarrow> Inl e
         | Inr ks \<Rightarrow> Inr (sorted_reverse ks results)))"

text \<open>
  \<open>SearchEngine.search_files\<close>: the success flag and the \<open>results\<close> entry of the answer
  (the facets and suggestions are not modelled). Any exception gives the failure answer.
\<close>

definition search_files ::
  "(string \<Rightarrow> datetime option) \<Rightarrow> int \<Rightarrow> state \<Rightarrow> string \<Rightarrow> string \<Rightarrow> dict option \<Rightarrow>
   bool \<times> dict list" where
  "search_files fromisoformat now st user_id query filters =
     (case db_search_files fromisoformat now st query user_id filters of
        Inl e \<Rightarrow> (False, [])
      | Inr results \<Rightarrow>
          (case enrich_search_results fromisoformat now st results of
             Inl e \<Rightarrow> (False, [])
           | Inr enriched_results \<Rightarrow>
               (case sort_search_results enriched_results query of
                  Inl e \<Rightarrow> (False, [])
                | Inr sorted_results \<Rightarrow> (True, sorted_results))))"


section \<open>Well-formed permission records\<close>

text \<open>The record that \<open>add_permission\<close> stores\<close>

definition new_permission :: "string \<Rightarrow> string \<Rightarrow> string \<Rightarrow> string \<Rightarrow> string \<Rightarrow> dict" where
  "new_permission created bucket_id owner_id shared_with permission_level =
     [(''bucket_id'', JStr bucket_id), (''owner'', JStr owner_id),
      (''shared_with'', JStr shared_with), (''permission_level'', JStr permission_level),
      (''created_date'', JStr created)]"

text \<open>
  The record under the key of a bucket and a grantee after a share that succeeds: the
  one there with its level replaced, or a new one.
\<close>

definition shared_record :: "state \<Rightarrow> string \<Rightarrow> string \<Rightarrow> string \<Rightarrow> string \<Rightarrow> string \<Rightarrow> dict" where
  "shared_record st created ow b g l =
     (case get_permission st b g of
        Some (kv # kvs) \<Rightarrow> AList.update ''permission_level'' (JStr l) (kv # kvs)
      | _ \<Rightarrow> new_permission created b ow g l)"

text \<open>
  The permissions file as the program writes it: each record is stored under
  \<open>bucket_id_grantee\<close>, and a grantee id (a uuid4) has no underscore.
\<close>

definition perm_wf :: "string \<times> dict \<Rightarrow> bool" where
  "perm_wf kp =
     (case map_of (snd kp) ''bucket_id'' of
        Some (JStr b) \<Rightarrow>
          (case map_of (snd kp) ''shared_with'' of
             Some (JStr g) \<Rightarrow> fst kp = b @ ''_'' @ g \<and> CHR ''_'' \<notin> set g
           | _ \<Rightarrow> False)
      | _ \<Rightarrow> False)"

definition permissions_wf :: "state \<Rightarrow> bool" where
  "permissions_wf st = (distinct (map fst (permissions st)) \<and> list_all perm_wf (permissions st))"

text \<open>The shares of a bucket (\<open>get_permissions_by_bucket\<close>) that name a grantee\<close>

definition records_for :: "state \<Rightarrow> string \<Rightarrow> string \<Rightarrow> dict list" where
  "records_for st bucket_id grantee =
     filter (\<lambda>perm. dget perm ''shared_with'' = JStr grantee) (get_permissions_by_bucket st bucket_id)"

section \<open>Example data\<close>

text \<open>
  Five users; alice owns the bucket \<open>docs\<close> with one file and has shared it with bob
  (upload), carol (view) and dave (full); erin has no share.
\<close>

definition demo_state :: state where
  "demo_state = \<lparr>
     users =
       [(''alice'', [(''email'', JStr ''alice@example.org''), (''password_hash'', JStr ''h1''),
                    (''user_id'', JStr ''alice''), (''created_date'', JStr ''2024-01-01T09:00:00'')]),
        (''bob'', [(''email'', JStr ''bob@example.org''), (''password_hash'', JStr ''h2''),
                  (''user_id'', JStr ''bob''), (''created_date'', JStr ''2024-01-01T09:05:00'')]),
        (''carol'', [(''email'', JStr ''carol@example.org''), (''password_hash'', JStr ''h3''),
                    (''user_id'', JStr ''carol''), (''created_date'', JStr ''2024-01-01T09:10:00'')]),
        (''dave'', [(''email'', JStr ''dave@example.org''), (''password_hash'', JStr ''h4''),
                   (''user_id'', JStr ''dave''), (''created_date'', JStr ''2024-01-01T09:15:00'')]),
        (''erin'', [(''email'', JStr ''erin@example.org''), (''password_hash'', JStr ''h5''),
                   (''user_id'', JStr ''erin''), (''created_date'', JStr ''2024-01-01T09:20:00'')])],
     permissions =
       [(''alice_docs_bob'',
         [(''bucket_id'', JStr ''alice_docs''), (''owner'', JStr ''alice''),
          (''shared_with'', JStr ''bob''), (''permission_level'', JStr ''upload''),
          (''created_date'', JStr ''2024-01-02T10:00:00'')]),
        (''alice_docs_carol'',
         [(''bucket_id'', JStr ''alice_docs''), (''owner'', JStr ''alice''),
          (''shared_with'', JStr ''carol''), (''permission_level'', JStr ''view''),
          (''created_date'', JStr ''2024-01-02T10:01:00'')]),
        (''alice_docs_dave'',
         [(''bucket_id'', JStr ''alice_docs''), (''owner'', JStr ''alice''),
          (''shared_with'', JStr ''dave''), (''permission_level'', JStr ''full''),
          (''created_date'', JStr ''2024-01-02T10:02:00'')])],
     search_index =
       [(''f1'',
         [(''file_name'', JStr ''report.pdf''), (''file_type'', JStr ''other''),
          (''size'', JInt 5), (''upload_date'', JStr ''2024-01-03T23:00:00''),
          (''bucket_id'', JStr ''alice_docs''), (''user_id'', JStr ''alice'')])],
     file_metadata =
       [(''f1'',
         [(''file_id'', JStr ''f1''), (''file_name'', JStr ''report.pdf''),
          (''stored_filename'', JStr ''f1.pdf''), (''file_type'', JStr ''other''),
          (''size'', JInt 5), (''upload_date'', JStr ''2024-01-03T23:00:00''),
          (''bucket_id'', JStr ''alice_docs''), (''bucket_name'', JStr ''docs''),
          (''user_id'', JStr ''alice''),
          (''file_path'', JStr ''data/uploads/alice/docs/f1.pdf'')])],
     bucket_dirs = [(''alice'', ''docs'')],
     files = [(''data/uploads/alice/docs/f1.pdf'', ''hello'')],
     io = []
   \<rparr>"


text \<open>The example after alice shares \<open>docs\<close> with erin once (view) and twice (then full)\<close>

definition erin_share :: "string \<Rightarrow> dict" where
  "erin_share level =
     [(''bucket_id'', JStr ''alice_docs''), (''owner'', JStr ''alice''),
      (''shared_with'', JStr ''erin''), (''permission_level'', JStr level),
      (''created_date'', JStr ''2024-01-05T08:00:00'')]"

definition demo_shared_once :: state where
  "demo_shared_once =
     demo_state\<lparr>permissions := permissions demo_state @ [(''alice_docs_erin'', erin_share ''view'')]\<rparr>"

definition demo_shared_twice :: state where
  "demo_shared_twice =
     demo_state\<lparr>permissions := permissions demo_state @ [(''alice_docs_erin'', erin_share ''full'')]\<rparr>"

text \<open>An upload with a blocked extension, and a configuration that also allows it\<close>

definition exe_file :: FileStorage where
  "exe_file = \<lparr>filename = ''setup.exe'', content_length = 2, stream = ''MZ''\<rparr>"

definition Config_exe_allowed :: config where
  "Config_exe_allowed = Config\<lparr>ALLOWED_EXTENSIONS := ''.exe'' # ALLOWED_EXTENSIONS Config\<rparr>"

text \<open>\<open>str.strip\<close> on the names of the examples, which are padded with blanks only\<close>

definition demo_strip :: "string \<Rightarrow> string" where
  "demo_strip s = rev (dropWhile (\<lambda>c. c = CHR '' '') (rev (dropWhile (\<lambda>c. c = CHR '' '') s)))"

text \<open>The example after alice renames her file to \<open>final.pdf\<close>\<close>

definition demo_renamed :: state where
  "demo_renamed = demo_state\<lparr>
     search_index :=
       [(''f1'',
         [(''file_name'', JStr ''final.pdf''), (''file_type'', JStr ''other''),
          (''size'', JInt 5), (''upload_date'', JStr ''2024-01-03T23:00:00''),
          (''bucket_id'', JStr ''alice_docs''), (''user_id'', JStr ''alice'')])],
     file_metadata :=
       [(''f1'',
         [(''file_id'', JStr ''f1''), (''file_name'', JStr ''final.pdf''),
          (''stored_filename'', JStr ''f1.pdf''), (''file_type'', JStr ''other''),
          (''size'', JInt 5), (''upload_date'', JStr ''2024-01-03T23:00:00''),
          (''bucket_id'', JStr ''alice_docs''), (''bucket_name'', JStr ''docs''),
          (''user_id'', JStr ''alice''),
          (''file_path'', JStr ''data/uploads/alice/docs/f1.pdf'')])]\<rparr>"

text \<open>The outcome of the \<open>n\<close>-th coming write\<close>

definition outcome :: "write_outcome list \<Rightarrow> nat \<Rightarrow> write_outcome" where
  "outcome os n = (if n < length os then os ! n else WOk)"

text \<open>What a file holds after a write of \<open>new\<close> over \<open>old\<close> with a given outcome\<close>

fun written :: "write_outcome \<Rightarrow> collection \<Rightarrow> collection \<Rightarrow> collection" where
  "written WOk new old = new"
| "written WFail new old = old"
| "written WTrunc new old = []"

text \<open>The path, the object record and the index entry of an upload that got to write them\<close>

definition object_path :: "(string \<Rightarrow> string) \<Rightarrow> upload_env \<Rightarrow> string \<Rightarrow> string \<Rightarrow> FileStorage \<Rightarrow> string" where
  "object_path secure_filename env user_id bucket_name f =
     bucket_path_of user_id bucket_name @ ''/'' @ new_id env @
       suffix_of (secure_filename (filename f))"

definition object_record :: "(string \<Rightarrow> string) \<Rightarrow> upload_env \<Rightarrow> string \<Rightarrow> string \<Rightarrow> FileStorage \<Rightarrow> dict" where
  "object_record secure_filename env user_id bucket_name f =
     [(''file_id'', JStr (new_id env)),
      (''file_name'', JStr (secure_filename (filename f))),
      (''stored_filename'', JStr (new_id env @ suffix_of (secure_filename (filename f)))),
      (''file_type'', JStr (get_file_type (secure_filename (filename f)))),
      (''size'', JInt (int (length (stream f)))),
      (''upload_date'', JStr (now_iso env)),
      (''bucket_id'', JStr (user_id @ ''_'' @ bucket_name)),
      (''bucket_name'', JStr bucket_name),
      (''user_id'', JStr user_id),
      (''file_path'', JStr (object_path secure_filename env user_id bucket_name f))]"

definition index_entry :: "(string \<Rightarrow> string) \<Rightarrow> upload_env \<Rightarrow> string \<Rightarrow> string \<Rightarrow> FileStorage \<Rightarrow> dict" where
  "index_entry secure_filename env user_id bucket_name f =
     [(''file_name'', JStr (secure_filename (filename f))),
      (''file_type'', JStr (get_file_type (secure_filename (filename f)))),
      (''size'', JInt (int (length (stream f)))),
      (''upload_date'', JStr (now_iso env)),
      (''bucket_id'', JStr (user_id @ ''_'' @ bucket_name)),
      (''user_id'', JStr user_id)]"

text \<open>An upload by alice into \<open>docs\<close>, and the example with failing writes to come\<close>

definition notes_file :: FileStorage where
  "notes_file = \<lparr>filename = ''notes.txt'', content_length = 5, stream = ''hello''\<rparr>"

definition demo_env :: upload_env where
  "demo_env = \<lparr>new_id = ''f2'', now_iso = ''2024-01-05T08:00:00'', save = SaveOk\<rparr>"

definition demo_index_write_fails :: state where
  "demo_index_write_fails = demo_state\<lparr>io := [WOk, WFail]\<rparr>"

definition demo_both_writes_fail :: state where
  "demo_both_writes_fail = demo_state\<lparr>io := [WFail, WTrunc]\<rparr>"

text \<open>
  The object metadata as the program writes it: distinct ids, and each record stores
  its own id as \<open>file_id\<close>.
\<close>

definition objects_wf :: "state \<Rightarrow> bool" where
  "objects_wf st =
     (distinct (map fst (file_metadata st)) \<and>
      list_all (\<lambda>(k, r). map_of r ''file_id'' = Some (JStr k)) (file_metadata st))"

text \<open>The ids of the objects of a bucket\<close>

definition bucket_object_ids :: "state \<Rightarrow> string \<Rightarrow> string list" where
  "bucket_object_ids st bucket_id =
     map fst (filter (\<lambda>(k, r). dget r ''bucket_id'' = JStr bucket_id) (file_metadata st))"

text \<open>The search index in step with the object metadata: each entry has an object record
  with the same id and bucket.\<close>

definition index_in_step :: "state \<Rightarrow> bool" where
  "index_in_step st =
     list_all (\<lambda>(k, e). case map_of (file_metadata st) k of
                           None \<Rightarrow> False
                         | Some r \<Rightarrow> dget r ''bucket_id'' = dget e ''bucket_id'')
       (search_index st)"

text \<open>Every coming write succeeds\<close>

definition writes_ok :: "state \<Rightarrow> bool" where
  "writes_ok st = list_all (\<lambda>w. w = WOk) (io st)"

text \<open>
  The accessible set in the words of the specification: a bucket id is accessible to
  a user when it is the id of a bucket the user owns, or the bucket id of a permission
  record that names the user as grantee (compared as Python compares).
\<close>

definition accessible :: "state \<Rightarrow> string \<Rightarrow> jval \<Rightarrow> bool" where
  "accessible st user_id v =
     (list_ex (\<lambda>bucket. v = JStr (user_id @ ''_'' @ bucket)) (get_user_buckets st user_id) \<or>
      list_ex (\<lambda>(k, perm). dget perm ''shared_with'' = JStr user_id \<and>
                 (case map_of perm ''bucket_id'' of None \<Rightarrow> False | Some a \<Rightarrow> py_eq v a))
        (permissions st))"

text \<open>The entries of the search index are dictionaries: no key twice\<close>

definition index_dicts :: "state \<Rightarrow> bool" where
  "index_dicts st = list_all (\<lambda>(k, e). distinct (map fst e)) (search_index st)"

text \<open>
  An example for the search: the bucket \<open>docs\<close> of alice holds three files, bob has a
  bucket \<open>private\<close> of his own with one file. The clock readings are given by day number
  and hour; \<open>demo_parse\<close> reads the dates of the example as \<open>datetime.fromisoformat\<close>
  does, and the search runs on 2024-01-04 at 01:00.
\<close>

definition at_hour :: "int \<Rightarrow> int \<Rightarrow> int" where
  "at_hour d h = d * 86400000000 + h * 3600000000"

definition demo_parse :: "string \<Rightarrow> datetime option" where
  "demo_parse s =
     map_of
       [(''2024-01-03T23:00:00'', \<lparr>wall = at_hour 738888 23, utcoffset = None\<rparr>),
        (''2023-11-01T10:00:00'', \<lparr>wall = at_hour 738825 10, utcoffset = None\<rparr>),
        (''2024-01-03T09:00:00'', \<lparr>wall = at_hour 738888 9, utcoffset = None\<rparr>),
        (''2024-01-02T08:00:00'', \<lparr>wall = at_hour 738887 8, utcoffset = None\<rparr>)] s"

definition demo_now :: int where
  "demo_now = at_hour 738889 1"

definition demo_entry :: "string \<Rightarrow> string \<Rightarrow> string \<Rightarrow> string \<Rightarrow> dict" where
  "demo_entry name date bucket owner =
     [(''file_name'', JStr name), (''file_type'', JStr ''other''), (''size'', JInt 5),
      (''upload_date'', JStr date), (''bucket_id'', JStr bucket), (''user_id'', JStr owner)]"

definition demo_library :: state where
  "demo_library = demo_state\<lparr>
     search_index :=
       [(''f1'', demo_entry ''report.pdf'' ''2024-01-03T23:00:00'' ''alice_docs'' ''alice''),
        (''f2'', demo_entry ''report_final.pdf'' ''2023-11-01T10:00:00'' ''alice_docs'' ''alice''),
        (''f3'', demo_entry ''myreport.pdf'' ''2024-01-03T09:00:00'' ''alice_docs'' ''alice''),
        (''f4'', demo_entry ''secret.txt'' ''2024-01-02T08:00:00'' ''bob_private'' ''bob'')],
     file_metadata := [],
     bucket_dirs := [(''alice'', ''docs''), (''bob'', ''private'')]\<rparr>"

text \<open>
  The date test in the words of the amended claim, for an upload date \<open>dt\<close> and the
  evaluation instant \<open>now\<close>: \<open>today\<close> asks for the same calendar day; \<open>week\<close>, \<open>month\<close> and
  \<open>year\<close> ask for a date without timezone and at most 7, 30, 365 elapsed whole days.
\<close>

definition date_range_passes :: "string \<Rightarrow> datetime \<Rightarrow> int \<Rightarrow> bool" where
  "date_range_passes rng dt now =
     (if rng = ''today'' then date_of (wall dt) = date_of now
      else utcoffset dt = None \<and>
           (now - wall dt) div day_us \<le>
             (if rng = ''week'' then 7 else if rng = ''month'' then 30 else 365))"

text \<open>
  The example after the upload of \<open>notes.txt\<close> whose index write failed: the object
  record of \<open>f2\<close> is there, the index has no entry for it; and that state after alice
  renames \<open>f2\<close>.
\<close>

definition demo_orphan :: state where
  "demo_orphan = demo_state\<lparr>
     file_metadata :=
       file_metadata demo_state @
       [(''f2'', object_record (\<lambda>n. n) demo_env ''alice'' ''docs'' notes_file)]\<rparr>"

definition demo_orphan_renamed :: state where
  "demo_orphan_renamed = demo_state\<lparr>
     file_metadata :=
       file_metadata demo_state @
       [(''f2'', AList.update ''file_name'' (JStr ''renamed.txt'')
                  (object_record (\<lambda>n. n) demo_env ''alice'' ''docs'' notes_file))]\<rparr>"

text \<open>An entry of the example as \<open>_enrich_search_results\<close> returns it, \<open>days\<close> days old\<close>

definition demo_enriched :: "string \<Rightarrow> string \<Rightarrow> int \<Rightarrow> dict" where
  "demo_enriched name date days =
     demo_entry name date ''alice_docs'' ''alice'' @
     [(''size_category'', JStr ''small''), (''days_ago'', JInt days),
      (''bucket_name'', JStr ''docs''), (''is_own_file'', JBool True)]"

text \<open>
  Two files that bob can see: his own in his own bucket, and one of alice in the bucket
  she shares with him, uploaded fourteen hours later. Both names start with \<open>report\<close>.
\<close>

definition demo_ranking :: state where
  "demo_ranking = demo_state\<lparr>
     search_index :=
       [(''f5'', demo_entry ''report_b.pdf'' ''2024-01-03T09:00:00'' ''bob_private'' ''bob''),
        (''f1'', demo_entry ''report.pdf'' ''2024-01-03T23:00:00'' ''alice_docs'' ''alice'')],
     file_metadata := [],
     bucket_dirs := [(''alice'', ''docs''), (''bob'', ''private'')]\<rparr>"

text \<open>
  The score in the words of the specification, for the user who searches: the tier of
  the name match, the bonus for a recent upload, and 5 points when that user is the
  owner (\<open>user_id\<close>) of the file.
\<close>

definition specified_score :: "string \<Rightarrow> string \<Rightarrow> dict \<Rightarrow> int" where
  "specified_score query user_id file_data =
     (let filename = lower (case dget file_data ''file_name'' of JStr n \<Rightarrow> n | _ \<Rightarrow> []);
          query_lower = lower query;
          match = (if query_lower = filename then 100
                   else if prefix query_lower filename then 50
                   else if contains query_lower filename then 25
                   else 0);
          recent = (case dget file_data ''days_ago'' of
                      JInt days_ago \<Rightarrow> if days_ago \<le> 7 then 10 else if days_ago \<le> 30 then 5 else 0
                    | _ \<Rightarrow> 0);
          own = (if dget file_data ''user_id'' = JStr user_id then 5 else 0)
      in match + recent + own)"

section \<open>Authorization\<close>

text \<open>
  C4. The level of a user on a bucket is \<open>owner\<close> when the part of the bucket id before
  its first underscore is the user id. For each action among view, upload and full:
  the levels owner and full allow it; upload allows exactly view and upload; view
  allows exactly view; and a user who is not the owner and has no permission record is
  refused.
\<close>

theorem can_perform_action_by_level:
  "(length (split1 bucket_id) = 2 \<and> hd (split1 bucket_id) = user_id \<longrightarrow>
      check_permission_level st user_id bucket_id = Inr (JStr ''owner'')) \<and>
   (\<forall>action \<in> {''view'', ''upload'', ''full''}.
      (check_permission_level st user_id bucket_id = Inr (JStr ''owner'') \<or>
       check_permission_level st user_id bucket_id = Inr (JStr ''full'') \<longrightarrow>
         can_perform_action st user_id bucket_id action = Inr True) \<and>
      (check_permission_level st user_id bucket_id = Inr (JStr ''upload'') \<longrightarrow>
         can_perform_action st user_id bucket_id action =
           Inr (action = ''view'' \<or> action = ''upload'')) \<and>
      (check_permission_level st user_id bucket_id = Inr (JStr ''view'') \<longrightarrow>
         can_perform_action st user_id bucket_id action = Inr (action = ''view'')) \<and>
      (\<not> (length (split1 bucket_id) = 2 \<and> hd (split1 bucket_id) = user_id) \<and>
       get_permission st bucket_id user_id = None \<longrightarrow>
         can_perform_action st user_id bucket_id action = Inr False))"
  by (auto simp: can_perform_action_def check_permission_level_def Let_def)


theorem can_perform_action_by_level_witness:
  "check_permission_level demo_state ''alice'' ''alice_docs'' = Inr (JStr ''owner'') \<and>
   can_perform_action demo_state ''alice'' ''alice_docs'' ''full'' = Inr True \<and>
   check_permission_level demo_state ''dave'' ''alice_docs'' = Inr (JStr ''full'') \<and>
   can_perform_action demo_state ''dave'' ''alice_docs'' ''full'' = Inr True \<and>
   check_permission_level demo_state ''bob'' ''alice_docs'' = Inr (JStr ''upload'') \<and>
   can_perform_action demo_state ''bob'' ''alice_docs'' ''upload'' = Inr True \<and>
   can_perform_action demo_state ''bob'' ''alice_docs'' ''full'' = Inr False \<and>
   check_permission_level demo_state ''carol'' ''alice_docs'' = Inr (JStr ''view'') \<and>
   can_perform_action demo_state ''carol'' ''alice_docs'' ''view'' = Inr True \<and>
   can_perform_action demo_state ''carol'' ''alice_docs'' ''upload'' = Inr False \<and>
   get_permission demo_state ''alice_docs'' ''erin'' = None \<and>
   can_perform_action demo_state ''erin'' ''alice_docs'' ''view'' = Inr False"
proof -
  have s: "split1 ''alice_docs'' = [''alice'', ''docs'']"
    by (simp add: split1_def)
  have p: "get_permission demo_state ''alice_docs'' ''erin'' = None"
    by (simp add: get_permission_def demo_state_def)
  have d: "check_permission_level demo_state ''dave'' ''alice_docs'' = Inr (JStr ''full'')"
    by (simp add: check_permission_level_def s get_permission_def demo_state_def subscript_def)
  have b: "check_permission_level demo_state ''bob'' ''alice_docs'' = Inr (JStr ''upload'')"
    by (simp add: check_permission_level_def s get_permission_def demo_state_def subscript_def)
  have c: "check_permission_level demo_state ''carol'' ''alice_docs'' = Inr (JStr ''view'')"
    by (simp add: check_permission_level_def s get_permission_def demo_state_def subscript_def)
  show ?thesis
    using can_perform_action_by_level [of "''alice_docs''" "''alice''" demo_state]
      can_perform_action_by_level [of "''alice_docs''" "''dave''" demo_state]
      can_perform_action_by_level [of "''alice_docs''" "''bob''" demo_state]
      can_perform_action_by_level [of "''alice_docs''" "''carol''" demo_state]
      can_perform_action_by_level [of "''alice_docs''" "''erin''" demo_state]
    by (simp add: s p d b c)
qed


section \<open>Sharing\<close>

lemma dropWhile_no_sep: "c \<notin> set xs \<Longrightarrow> dropWhile (\<lambda>x. x \<noteq> c) (xs @ c # ys) = c # ys"
  by (induction xs) auto

lemma takeWhile_no_sep: "c \<notin> set xs \<Longrightarrow> takeWhile (\<lambda>x. x \<noteq> c) (xs @ c # ys) = xs"
  by (induction xs) auto

lemma split1_owner_prefix:
  "CHR ''_'' \<notin> set owner_id \<Longrightarrow> split1 (owner_id @ ''_'' @ bucket_name) = [owner_id, bucket_name]"
proof -
  assume h: "CHR ''_'' \<notin> set owner_id"
  have e: "owner_id @ ''_'' @ bucket_name = owner_id @ CHR ''_'' # bucket_name" by simp
  show ?thesis
    unfolding split1_def e dropWhile_no_sep[OF h] takeWhile_no_sep[OF h] by simp
qed

lemma sep_unique:
  "c \<notin> set xs \<Longrightarrow> c \<notin> set ys \<Longrightarrow> xs @ c # us = ys @ c # vs \<Longrightarrow> xs = ys \<and> us = vs"
proof (induction xs arbitrary: ys)
  case Nil
  then show ?case by (cases ys) auto
next
  case (Cons x xs)
  then show ?case by (cases ys) auto
qed

lemma permission_id_inj:
  assumes "CHR ''_'' \<notin> set g" "CHR ''_'' \<notin> set g'" "b @ ''_'' @ g = b' @ ''_'' @ g'"
  shows "b = b' \<and> g = g'"
proof -
  from assms(3) have "rev (b @ ''_'' @ g) = rev (b' @ ''_'' @ g')" by simp
  then have "rev g @ CHR ''_'' # rev b = rev g' @ CHR ''_'' # rev b'" by simp
  with assms(1,2) have "rev g = rev g' \<and> rev b = rev b'"
    by (intro sep_unique[where c = "CHR ''_''"]) auto
  then show ?thesis by simp
qed

lemma write_json_True:
  "write_json st f d = (True, st') \<Longrightarrow>
     read_json st' f = d \<and> (\<forall>g. g \<noteq> f \<longrightarrow> read_json st' g = read_json st g) \<and>
     bucket_dirs st' = bucket_dirs st \<and> files st' = files st \<and> io st' = tl (io st) \<and>
     (io st = [] \<or> hd (io st) = WOk)"
  by (cases f; auto simp: write_json_def split: list.splits write_outcome.splits; (rename_tac g, case_tac g, auto)?)

lemma write_json_False:
  "write_json st f d = (False, st') \<Longrightarrow>
     (read_json st' f = read_json st f \<or> read_json st' f = []) \<and>
     (\<forall>g. g \<noteq> f \<longrightarrow> read_json st' g = read_json st g) \<and>
     bucket_dirs st' = bucket_dirs st \<and> files st' = files st \<and> io st' = tl (io st) \<and>
     io st \<noteq> [] \<and> hd (io st) \<noteq> WOk"
  by (cases f; auto simp: write_json_def split: list.splits write_outcome.splits; (rename_tac g, case_tac g, auto)?)

lemma write_json_ok:
  "io st = [] \<or> hd (io st) = WOk \<Longrightarrow> fst (write_json st f d)"
  by (auto simp: write_json_def split: list.splits write_outcome.splits)

lemma perm_wf_iff:
  "perm_wf (k, p) \<longleftrightarrow>
     (\<exists>b g. map_of p ''bucket_id'' = Some (JStr b) \<and> map_of p ''shared_with'' = Some (JStr g) \<and>
            k = b @ ''_'' @ g \<and> CHR ''_'' \<notin> set g)"
proof (cases "map_of p ''bucket_id''")
  case None
  then show ?thesis by (simp add: perm_wf_def)
next
  case (Some v)
  note bv = this
  show ?thesis
  proof (cases "map_of p ''shared_with''")
    case None
    with bv show ?thesis by (cases v) (simp_all add: perm_wf_def)
  next
    case (Some w)
    with bv show ?thesis by (cases v; cases w) (simp_all add: perm_wf_def)
  qed
qed

lemma list_all_update:
  "list_all P al \<Longrightarrow> P (k, v) \<Longrightarrow> list_all P (AList.update k v al)"
  by (induction al) auto

lemma perm_wf_matches:
  assumes "perm_wf (k, p)" "CHR ''_'' \<notin> set g"
  shows "(dget p ''bucket_id'' = JStr b \<and> dget p ''shared_with'' = JStr g) \<longleftrightarrow> k = b @ ''_'' @ g"
proof -
  from assms(1) obtain b' g' where
    f: "map_of p ''bucket_id'' = Some (JStr b')" "map_of p ''shared_with'' = Some (JStr g')"
    and k: "k = b' @ ''_'' @ g'" and g': "CHR ''_'' \<notin> set g'"
    unfolding perm_wf_iff by blast
  show ?thesis
  proof
    assume "dget p ''bucket_id'' = JStr b \<and> dget p ''shared_with'' = JStr g"
    with f have "b' = b" "g' = g" by (simp_all add: dget_def)
    with k show "k = b @ ''_'' @ g" by simp
  next
    assume "k = b @ ''_'' @ g"
    with k have "b' @ ''_'' @ g' = b @ ''_'' @ g" by simp
    from permission_id_inj[OF g' assms(2) this] f
    show "dget p ''bucket_id'' = JStr b \<and> dget p ''shared_with'' = JStr g"
      by (simp add: dget_def)
  qed
qed

lemma no_key_no_record:
  "list_all perm_wf al \<Longrightarrow> CHR ''_'' \<notin> set g \<Longrightarrow> b @ ''_'' @ g \<notin> fst ` set al \<Longrightarrow>
   filter (\<lambda>p. dget p ''bucket_id'' = JStr b \<and> dget p ''shared_with'' = JStr g) (map snd al) = []"
proof (induction al)
  case Nil
  then show ?case by simp
next
  case (Cons kp al)
  obtain k p where kp: "kp = (k, p)" by (cases kp)
  from Cons.prems kp have "perm_wf (k, p)" "k \<noteq> b @ ''_'' @ g" by auto
  with perm_wf_matches[OF this(1) Cons.prems(2), of b]
  have "\<not> (dget p ''bucket_id'' = JStr b \<and> dget p ''shared_with'' = JStr g)" by blast
  with Cons kp show ?case by auto
qed

lemma unique_record:
  "distinct (map fst al) \<Longrightarrow> list_all perm_wf al \<Longrightarrow> CHR ''_'' \<notin> set g \<Longrightarrow>
   map_of al (b @ ''_'' @ g) = Some p \<Longrightarrow>
   filter (\<lambda>p. dget p ''bucket_id'' = JStr b \<and> dget p ''shared_with'' = JStr g) (map snd al) = [p]"
proof (induction al)
  case Nil
  then show ?case by simp
next
  case (Cons kq al)
  obtain k q where kq: "kq = (k, q)" by (cases kq)
  from Cons.prems kq have wf: "perm_wf (k, q)" "list_all perm_wf al"
    and d: "k \<notin> fst ` set al" "distinct (map fst al)" by auto
  note m = perm_wf_matches[OF wf(1) Cons.prems(3), of b]
  show ?case
  proof (cases "k = b @ ''_'' @ g")
    case True
    with Cons.prems(4) kq have "q = p" by simp
    moreover from True d(1) have "b @ ''_'' @ g \<notin> fst ` set al" by simp
    note no_key_no_record[OF wf(2) Cons.prems(3) this]
    ultimately show ?thesis using kq m True by simp
  next
    case False
    with Cons.prems(4) kq have "map_of al (b @ ''_'' @ g) = Some p" by simp
    from Cons.IH[OF d(2) wf(2) Cons.prems(3) this] kq m False show ?thesis by simp
  qed
qed

lemma add_permission_result:
  assumes "add_permission st now b ow g l = (ok, st')"
  shows "users st' = users st \<and> bucket_dirs st' = bucket_dirs st \<and>
         (if ok then permissions st' =
                 AList.update (b @ ''_'' @ g) (new_permission now b ow g l) (permissions st)
          else permissions st' = permissions st \<or> permissions st' = [])"
proof (cases ok)
  case True
  with assms have "write_json st PERMISSIONS_FILE
      (AList.update (b @ ''_'' @ g) (new_permission now b ow g l) (permissions st)) = (True, st')"
    by (simp add: add_permission_def new_permission_def)
  from write_json_True[OF this] True show ?thesis
    by (auto dest: spec[where x = USERS_FILE])
next
  case False
  with assms have "write_json st PERMISSIONS_FILE
      (AList.update (b @ ''_'' @ g) (new_permission now b ow g l) (permissions st)) = (False, st')"
    by (simp add: add_permission_def new_permission_def)
  from write_json_False[OF this] False show ?thesis
    by (auto dest: spec[where x = USERS_FILE])
qed

lemma update_permission_result:
  assumes "update_permission st b g l = (ok, st')" "map_of (permissions st) (b @ ''_'' @ g) = Some old"
  shows "users st' = users st \<and> bucket_dirs st' = bucket_dirs st \<and>
         (if ok then permissions st' =
                 AList.update (b @ ''_'' @ g)
                   (AList.update ''permission_level'' (JStr l) old) (permissions st)
          else permissions st' = permissions st \<or> permissions st' = [])"
proof (cases ok)
  case True
  with assms have "write_json st PERMISSIONS_FILE
      (AList.update (b @ ''_'' @ g)
         (AList.update ''permission_level'' (JStr l) old) (permissions st)) = (True, st')"
    by (simp add: update_permission_def)
  from write_json_True[OF this] True show ?thesis
    by (auto dest: spec[where x = USERS_FILE])
next
  case False
  with assms have "write_json st PERMISSIONS_FILE
      (AList.update (b @ ''_'' @ g)
         (AList.update ''permission_level'' (JStr l) old) (permissions st)) = (False, st')"
    by (simp add: update_permission_def)
  from write_json_False[OF this] False show ?thesis
    by (auto dest: spec[where x = USERS_FILE])
qed

lemma find_by_email_found:
  "find_by_email us email = Inr (Some u) \<Longrightarrow> map_of u ''email'' = Some (JStr email)"
proof (induction us)
  case Nil
  then show ?case by simp
next
  case (Cons a us)
  then show ?case
    by (cases "map_of a ''email''") (auto simp: subscript_def split: if_splits)
qed

lemma get_user_by_email_nonempty: "get_user_by_email st email = Inr (Some u) \<Longrightarrow> u \<noteq> []"
  by (auto simp: get_user_by_email_def dest: find_by_email_found)

lemma share_bucket_unfold:
  assumes "map_of PERMISSION_LEVELS l = Some level_name"
    and "length (split1 b) = 2" "hd (split1 b) = ow"
    and "get_user_by_email st email = Inr (Some u)"
    and "subscript_str u ''user_id'' = Inr g" "g \<noteq> ow"
  shows "share_bucket st now ow b email l =
     (case get_permission st b g of
        Some (_ # _) \<Rightarrow>
          (case update_permission st b g l of
             (True, st') \<Rightarrow> Inr ((True, PermissionUpdatedTo level_name), st')
           | (False, st') \<Rightarrow> Inr ((False, FailedToUpdatePermission), st'))
      | _ \<Rightarrow>
          (case add_permission st now b ow g l of
             (True, st') \<Rightarrow> Inr ((True, BucketSharedWith level_name), st')
           | (False, st') \<Rightarrow> Inr ((False, FailedToShareBucket), st')))"
proof -
  from assms(5) have "u \<noteq> []" by (auto simp: subscript_str_def)
  with assms show ?thesis by (simp add: share_bucket_def Let_def)
qed

lemma share_bucket_early:
  assumes "share_bucket st now ow b email l = Inr ((ok, m), st')"
    and "map_of PERMISSION_LEVELS l = None \<or> length (split1 b) \<noteq> 2 \<or> hd (split1 b) \<noteq> ow \<or>
         get_user_by_email st email = Inr None \<or>
         (\<exists>u. get_user_by_email st email = Inr (Some u) \<and> subscript_str u ''user_id'' = Inr ow)"
  shows "\<not> ok \<and> st' = st"
proof (cases "map_of PERMISSION_LEVELS l")
  case None
  with assms(1) show ?thesis by (simp add: share_bucket_def)
next
  case (Some level_name)
  note lv = this
  show ?thesis
  proof (cases "length (split1 b) \<noteq> 2 \<or> hd (split1 b) \<noteq> ow")
    case True
    with assms(1) lv show ?thesis by (simp add: share_bucket_def Let_def)
  next
    case False
    note pre = this
    with assms(2) lv consider "get_user_by_email st email = Inr None" |
      u where "get_user_by_email st email = Inr (Some u)" "subscript_str u ''user_id'' = Inr ow"
      by auto
    then show ?thesis
    proof cases
      case 1
      with assms(1) lv pre show ?thesis by (simp add: share_bucket_def Let_def)
    next
      case 2
      from 2(2) have "u \<noteq> []" by (auto simp: subscript_str_def)
      with 2 assms(1) lv pre show ?thesis by (simp add: share_bucket_def Let_def)
    qed
  qed
qed

text \<open>A share that returns got past the checks, or stopped at one of them.\<close>

lemma share_bucket_reaches:
  assumes "share_bucket st now ow b email l = Inr (r, st')"
  shows "(map_of PERMISSION_LEVELS l = None \<or> length (split1 b) \<noteq> 2 \<or> hd (split1 b) \<noteq> ow \<or>
          get_user_by_email st email = Inr None \<or>
          (\<exists>u. get_user_by_email st email = Inr (Some u) \<and> subscript_str u ''user_id'' = Inr ow)) \<or>
         (\<exists>level_name u g. map_of PERMISSION_LEVELS l = Some level_name \<and>
            length (split1 b) = 2 \<and> hd (split1 b) = ow \<and>
            get_user_by_email st email = Inr (Some u) \<and>
            subscript_str u ''user_id'' = Inr g \<and> g \<noteq> ow)"
proof (cases "map_of PERMISSION_LEVELS l")
  case None
  then show ?thesis by simp
next
  case (Some level_name)
  note lv = this
  show ?thesis
  proof (cases "length (split1 b) \<noteq> 2 \<or> hd (split1 b) \<noteq> ow")
    case True
    then show ?thesis by blast
  next
    case False
    note pre = this
    show ?thesis
    proof (cases "get_user_by_email st email")
      case (Inl e)
      with assms lv pre show ?thesis by (simp add: share_bucket_def Let_def)
    next
      case (Inr uo)
      note us = this
      show ?thesis
      proof (cases uo)
        case None
        with us show ?thesis by simp
      next
        case (Some u)
        note u = this
        show ?thesis
        proof (cases "subscript_str u ''user_id''")
          case (Inl e)
          from us u have "u \<noteq> []" by (auto dest: get_user_by_email_nonempty)
          with Inl assms lv pre us u show ?thesis
            by (simp add: share_bucket_def Let_def)
        next
          case (Inr g)
          with lv pre us u show ?thesis by (cases "g = ow") simp_all
        qed
      qed
    qed
  qed
qed

lemma write_json_fst: "fst (write_json st f d) \<longleftrightarrow> io st = [] \<or> hd (io st) = WOk"
  by (auto simp: write_json_def split: list.splits write_outcome.splits)

lemma add_permission_fst:
  "fst (add_permission st now b ow g l) \<longleftrightarrow> io st = [] \<or> hd (io st) = WOk"
  by (simp add: add_permission_def write_json_fst)

lemma update_permission_fst:
  "map_of (permissions st) (b @ ''_'' @ g) = Some old \<Longrightarrow>
   fst (update_permission st b g l) \<longleftrightarrow> io st = [] \<or> hd (io st) = WOk"
  by (simp add: update_permission_def write_json_fst)

lemma pair_case_eq:
  "(case p of (True, s) \<Rightarrow> Inr ((True, A), s) | (False, s) \<Rightarrow> Inr ((False, B), s)) = Inr ((ok, m), st')
   \<Longrightarrow> p = (ok, st')"
  by (cases p; cases "fst p") auto

lemma share_bucket_late:
  assumes lv: "map_of PERMISSION_LEVELS l = Some level_name"
    and pre: "length (split1 b) = 2" "hd (split1 b) = ow"
    and us: "get_user_by_email st email = Inr (Some u)"
    and g: "subscript_str u ''user_id'' = Inr g" "g \<noteq> ow"
    and sh: "share_bucket st now ow b email l = Inr ((ok, m), st')"
  shows "(ok \<longleftrightarrow> io st = [] \<or> hd (io st) = WOk) \<and>
         users st' = users st \<and> bucket_dirs st' = bucket_dirs st \<and>
         (if ok
          then permissions st' =
                 AList.update (b @ ''_'' @ g) (shared_record st now ow b g l) (permissions st)
          else permissions st' = permissions st \<or> permissions st' = [])"
proof -
  note unf = share_bucket_unfold[OF lv pre us g, of now]
  have add: ?thesis
    if nx: "get_permission st b g = None \<or> get_permission st b g = Some []"
  proof -
    have "share_bucket st now ow b email l =
        (case add_permission st now b ow g l of
           (True, s) \<Rightarrow> Inr ((True, BucketSharedWith level_name), s)
         | (False, s) \<Rightarrow> Inr ((False, FailedToShareBucket), s))"
      using nx unfolding unf by (elim disjE) simp_all
    with sh have ad: "add_permission st now b ow g l = (ok, st')"
      by (intro pair_case_eq) simp
    from add_permission_fst[of st now b ow g l] ad
    have io: "ok \<longleftrightarrow> io st = [] \<or> hd (io st) = WOk" by simp
    have c: "shared_record st now ow b g l = new_permission now b ow g l"
      using nx unfolding shared_record_def by (elim disjE) simp_all
    from add_permission_result[OF ad] io show ?thesis
      unfolding c by simp
  qed
  show ?thesis
  proof (cases "get_permission st b g")
    case None
    then show ?thesis by (intro add) simp
  next
    case (Some old)
    show ?thesis
    proof (cases old)
      case Nil
      with Some show ?thesis by (intro add) simp
    next
      case (Cons kv kvs)
      with Some have ex: "get_permission st b g = Some (kv # kvs)" by simp
      then have mo: "map_of (permissions st) (b @ ''_'' @ g) = Some (kv # kvs)"
        by (simp add: get_permission_def)
      have "share_bucket st now ow b email l =
          (case update_permission st b g l of
             (True, s) \<Rightarrow> Inr ((True, PermissionUpdatedTo level_name), s)
           | (False, s) \<Rightarrow> Inr ((False, FailedToUpdatePermission), s))"
        unfolding unf ex by simp
      with sh have up: "update_permission st b g l = (ok, st')"
        by (intro pair_case_eq) simp
      from update_permission_fst[OF mo, of l] up
      have io: "ok \<longleftrightarrow> io st = [] \<or> hd (io st) = WOk" by simp
      have c: "shared_record st now ow b g l = AList.update ''permission_level'' (JStr l) (kv # kvs)"
        unfolding shared_record_def ex by simp
      from update_permission_result[OF up mo] io show ?thesis
        unfolding c by simp
    qed
  qed
qed

lemma share_bucket_returns:
  assumes lv: "map_of PERMISSION_LEVELS l = Some level_name"
    and pre: "length (split1 b) = 2" "hd (split1 b) = ow"
    and us: "get_user_by_email st email = Inr (Some u)"
    and g: "subscript_str u ''user_id'' = Inr g" "g \<noteq> ow"
  shows "\<exists>ok m st'. share_bucket st now ow b email l = Inr ((ok, m), st')"
proof -
  have p: "\<exists>ok m st'. (case p of (True, s) \<Rightarrow> Inr ((True, A), s) | (False, s) \<Rightarrow> Inr ((False, B), s))
             = (Inr ((ok, m), st') :: error + ((bool \<times> message) \<times> state))" for p A B
    by (cases p; cases "fst p") auto
  show ?thesis
    unfolding share_bucket_unfold[OF lv pre us g, of now]
    by (cases "get_permission st b g"; (simp add: p)?; cases "the (get_permission st b g)"; simp add: p)
qed

lemma shared_record_level:
  "map_of (shared_record st created ow b g l) ''permission_level'' = Some (JStr l)"
  by (auto simp: shared_record_def new_permission_def update_conv' split: option.splits list.splits)

lemma shared_record_nonempty: "shared_record st created ow b g l \<noteq> []"
  by (auto simp: shared_record_def new_permission_def split: option.splits list.splits)

lemma perm_wf_update_level:
  "perm_wf (k, p) \<Longrightarrow> perm_wf (k, AList.update ''permission_level'' v p)"
  by (simp add: perm_wf_iff update_conv')

lemma shared_record_wf:
  assumes "list_all perm_wf (permissions st)" "CHR ''_'' \<notin> set g"
  shows "perm_wf (b @ ''_'' @ g, shared_record st created ow b g l)"
proof (cases "\<exists>kv kvs. get_permission st b g = Some (kv # kvs)")
  case True
  then obtain kv kvs where ex: "get_permission st b g = Some (kv # kvs)" by blast
  then have "(b @ ''_'' @ g, kv # kvs) \<in> set (permissions st)"
    by (auto simp: get_permission_def dest: map_of_SomeD)
  with assms(1) have "perm_wf (b @ ''_'' @ g, kv # kvs)"
    by (auto simp: list_all_iff)
  from perm_wf_update_level[OF this] ex show ?thesis
    by (simp add: shared_record_def)
next
  case False
  then have "shared_record st created ow b g l = new_permission created b ow g l"
    by (auto simp: shared_record_def split: option.splits list.splits)
  with assms(2) show ?thesis
    by (simp add: perm_wf_iff new_permission_def)
qed

text \<open>What any returning share leaves behind.\<close>

lemma share_bucket_frame:
  assumes sh: "share_bucket st now ow b email l = Inr ((ok, m), st')"
  shows "users st' = users st \<and> bucket_dirs st' = bucket_dirs st \<and>
         (permissions st' = permissions st \<or> permissions st' = [] \<or>
          (ok \<and> (\<exists>u g. get_user_by_email st email = Inr (Some u) \<and>
                   subscript_str u ''user_id'' = Inr g \<and>
                   permissions st' =
                     AList.update (b @ ''_'' @ g) (shared_record st now ow b g l) (permissions st))))"
proof -
  from share_bucket_reaches[OF sh] show ?thesis
  proof (elim disjE exE conjE)
    fix level_name u g
    assume "map_of PERMISSION_LEVELS l = Some level_name" "length (split1 b) = 2"
      "hd (split1 b) = ow" "get_user_by_email st email = Inr (Some u)"
      "subscript_str u ''user_id'' = Inr g" "g \<noteq> ow"
    note h = this
    from share_bucket_late[OF h sh] h(4,5) show ?thesis
      by (cases ok) auto
  qed (use share_bucket_early[OF sh] in auto)
qed

lemma share_bucket_wf:
  assumes sh: "share_bucket st now ow b email l = Inr ((ok, m), st')"
    and wf: "permissions_wf st"
    and us: "get_user_by_email st email = Inr (Some u)" "subscript_str u ''user_id'' = Inr g"
      "CHR ''_'' \<notin> set g"
  shows "permissions_wf st'"
proof -
  from share_bucket_frame[OF sh] consider
    "permissions st' = permissions st" | "permissions st' = []" |
    "permissions st' = AList.update (b @ ''_'' @ g) (shared_record st now ow b g l) (permissions st)"
    using us by auto
  then show ?thesis
  proof cases
    case 1
    with wf show ?thesis by (simp add: permissions_wf_def)
  next
    case 2
    then show ?thesis by (simp add: permissions_wf_def)
  next
    case 3
    from wf have "list_all perm_wf (permissions st)" by (simp add: permissions_wf_def)
    from shared_record_wf[OF this us(3)] wf 3 show ?thesis
      by (simp add: permissions_wf_def list_all_update distinct_update)
  qed
qed

text \<open>
  C10. \<open>share_bucket\<close> never looks at the bucket directories. For an owner id without
  underscore, any bucket name (the witness takes one with no directory), the email of a
  registered user other than the owner, a valid level and a write that works, the share
  succeeds and leaves a record with that level under the bucket and the grantee. And a
  share that fails has one of these causes only: invalid level, owner prefix mismatch,
  unknown email, share with oneself, failed write.
\<close>

theorem share_bucket_never_checks_bucket:
  "(map_of PERMISSION_LEVELS l = Some level_name \<and> CHR ''_'' \<notin> set ow \<and>
    get_user_by_email st email = Inr (Some u) \<and> subscript_str u ''user_id'' = Inr g \<and>
    g \<noteq> ow \<and> (io st = [] \<or> hd (io st) = WOk) \<longrightarrow>
      (\<exists>m st' perm.
         share_bucket st now ow (ow @ ''_'' @ bucket_name) email l = Inr ((True, m), st') \<and>
         get_permission st' (ow @ ''_'' @ bucket_name) g = Some perm \<and>
         map_of perm ''permission_level'' = Some (JStr l) \<and>
         bucket_dirs st' = bucket_dirs st)) \<and>
   (\<forall>m st'. share_bucket st now ow b email l = Inr ((False, m), st') \<longrightarrow>
      map_of PERMISSION_LEVELS l = None \<or> length (split1 b) \<noteq> 2 \<or> hd (split1 b) \<noteq> ow \<or>
      get_user_by_email st email = Inr None \<or>
      (\<exists>u. get_user_by_email st email = Inr (Some u) \<and> subscript_str u ''user_id'' = Inr ow) \<or>
      (io st \<noteq> [] \<and> hd (io st) \<noteq> WOk))"
proof (intro conjI impI allI)
  assume h: "map_of PERMISSION_LEVELS l = Some level_name \<and> CHR ''_'' \<notin> set ow \<and>
    get_user_by_email st email = Inr (Some u) \<and> subscript_str u ''user_id'' = Inr g \<and>
    g \<noteq> ow \<and> (io st = [] \<or> hd (io st) = WOk)"
  let ?b = "ow @ ''_'' @ bucket_name"
  from h have sp: "length (split1 ?b) = 2" "hd (split1 ?b) = ow"
    using split1_owner_prefix[of ow bucket_name] by simp_all
  from h have lv: "map_of PERMISSION_LEVELS l = Some level_name"
    and us: "get_user_by_email st email = Inr (Some u)"
    and g: "subscript_str u ''user_id'' = Inr g" "g \<noteq> ow"
    and io: "io st = [] \<or> hd (io st) = WOk" by simp_all
  from share_bucket_returns[OF lv sp us g, of now] obtain ok m st' where
    sh: "share_bucket st now ow ?b email l = Inr ((ok, m), st')" by blast
  note late = share_bucket_late[OF lv sp us g sh]
  from late io have ok: ok by blast
  with late have p: "permissions st' =
      AList.update (?b @ ''_'' @ g) (shared_record st now ow ?b g l) (permissions st)"
    and d: "bucket_dirs st' = bucket_dirs st"
    by simp_all
  have gp: "get_permission st' ?b g = Some (shared_record st now ow ?b g l)"
    unfolding get_permission_def by (simp add: p update_conv')
  from sh ok have sh': "share_bucket st now ow ?b email l = Inr ((True, m), st')" by simp
  from sh' gp shared_record_level[of st now ow ?b g l] d
  show "\<exists>m st' perm.
         share_bucket st now ow ?b email l = Inr ((True, m), st') \<and>
         get_permission st' ?b g = Some perm \<and>
         map_of perm ''permission_level'' = Some (JStr l) \<and>
         bucket_dirs st' = bucket_dirs st"
    by blast
next
  fix m st'
  assume sh: "share_bucket st now ow b email l = Inr ((False, m), st')"
  from share_bucket_reaches[OF sh]
  show "map_of PERMISSION_LEVELS l = None \<or> length (split1 b) \<noteq> 2 \<or> hd (split1 b) \<noteq> ow \<or>
      get_user_by_email st email = Inr None \<or>
      (\<exists>u. get_user_by_email st email = Inr (Some u) \<and> subscript_str u ''user_id'' = Inr ow) \<or>
      (io st \<noteq> [] \<and> hd (io st) \<noteq> WOk)"
  proof (elim disjE exE conjE)
    fix level_name u g
    assume "map_of PERMISSION_LEVELS l = Some level_name" "length (split1 b) = 2"
      "hd (split1 b) = ow" "get_user_by_email st email = Inr (Some u)"
      "subscript_str u ''user_id'' = Inr g" "g \<noteq> ow"
    note h = this
    from share_bucket_late[OF h sh] show ?thesis by simp
  qed auto
qed

lemma records_for_alt:
  "records_for st b g =
     filter (\<lambda>p. dget p ''bucket_id'' = JStr b \<and> dget p ''shared_with'' = JStr g)
       (map snd (permissions st))"
  by (simp add: records_for_def get_permissions_by_bucket_def conj_commute)

lemma update_keeps_keys:
  "k \<in> fst ` set al \<Longrightarrow> map fst (AList.update k v al) = map fst al"
  by (simp add: update_keys)

text \<open>
  C6. Sharing is idempotent on the pair of bucket and grantee. From a permissions file
  as the program writes it, and for a grantee whose id has no underscore: after two
  shares in succession of the same bucket with the same grantee, with any levels, of
  which the second succeeds, the shares listed for the bucket hold exactly one record
  for the grantee, and its level is the level of the second share. When the first share
  succeeded too, the second one leaves the keys of the file as they were: it updates in
  place and adds no record.
\<close>

theorem share_twice_one_record:
  assumes wf: "permissions_wf st"
    and us: "get_user_by_email st email = Inr (Some u)" "subscript_str u ''user_id'' = Inr g"
      "CHR ''_'' \<notin> set g"
    and s1: "share_bucket st now1 ow b email l1 = Inr ((ok1, m1), st1)"
    and s2: "share_bucket st1 now2 ow b email l2 = Inr ((True, m2), st2)"
  shows "(\<exists>perm. records_for st2 b g = [perm] \<and>
                 map_of perm ''permission_level'' = Some (JStr l2)) \<and>
         (ok1 \<longrightarrow> map fst (permissions st2) = map fst (permissions st1))"
proof -
  note f1 = share_bucket_frame[OF s1]
  from f1 have u1: "users st1 = users st" by simp
  then have us1: "get_user_by_email st1 email = Inr (Some u)"
    using us(1) by (simp add: get_user_by_email_def)
  have wf1: "permissions_wf st1" by (rule share_bucket_wf[OF s1 wf us])
  have wf2: "permissions_wf st2" by (rule share_bucket_wf[OF s2 wf1 us1 us(2,3)])
  from share_bucket_reaches[OF s2] share_bucket_early[OF s2]
  obtain level_name where late: "map_of PERMISSION_LEVELS l2 = Some level_name"
    "length (split1 b) = 2" "hd (split1 b) = ow" "g \<noteq> ow"
    using us1 us(2) by auto
  from share_bucket_late[OF late(1-3) us1 us(2) late(4) s2]
  have p2: "permissions st2 =
      AList.update (b @ ''_'' @ g) (shared_record st1 now2 ow b g l2) (permissions st1)"
    by simp
  then have "map_of (permissions st2) (b @ ''_'' @ g) = Some (shared_record st1 now2 ow b g l2)"
    by (simp add: update_conv')
  with wf2 us(3) have "records_for st2 b g = [shared_record st1 now2 ow b g l2]"
    unfolding records_for_alt permissions_wf_def by (intro unique_record) simp_all
  with shared_record_level[of st1 now2 ow b g l2]
  have one: "\<exists>perm. records_for st2 b g = [perm] \<and>
                 map_of perm ''permission_level'' = Some (JStr l2)"
    by simp
  have inplace: "map fst (permissions st2) = map fst (permissions st1)" if ok1
  proof -
    from share_bucket_reaches[OF s1] share_bucket_early[OF s1] that
    obtain level_name1 where late1: "map_of PERMISSION_LEVELS l1 = Some level_name1"
      "length (split1 b) = 2" "hd (split1 b) = ow" "g \<noteq> ow"
      using us(1,2) by auto
    from share_bucket_late[OF late1(1-3) us(1,2) late1(4) s1] that
    have "permissions st1 =
        AList.update (b @ ''_'' @ g) (shared_record st now1 ow b g l1) (permissions st)"
      by simp
    then have "b @ ''_'' @ g \<in> fst ` set (permissions st1)"
      by (simp add: dom_update)
    then show ?thesis unfolding p2 by (rule update_keeps_keys)
  qed
  from one inplace show ?thesis by blast
qed

lemma demo_erin:
  "get_user_by_email demo_state ''erin@example.org'' =
     Inr (Some [(''email'', JStr ''erin@example.org''), (''password_hash'', JStr ''h5''),
                (''user_id'', JStr ''erin''), (''created_date'', JStr ''2024-01-01T09:20:00'')])"
  by (simp add: get_user_by_email_def demo_state_def subscript_def)

lemma demo_wf: "permissions_wf demo_state"
  by (simp add: permissions_wf_def perm_wf_def demo_state_def)

lemma demo_share_once:
  "share_bucket demo_state ''2024-01-05T08:00:00'' ''alice'' ''alice_docs'' ''erin@example.org'' ''view''
     = Inr ((True, BucketSharedWith ''View Only''), demo_shared_once)"
proof -
  have p: "get_permission demo_state ''alice_docs'' ''erin'' = None"
    by (simp add: get_permission_def demo_state_def)
  have a: "add_permission demo_state ''2024-01-05T08:00:00'' ''alice_docs'' ''alice'' ''erin'' ''view''
             = (True, demo_shared_once)"
    by (simp add: add_permission_def write_json_def demo_shared_once_def erin_share_def
        demo_state_def)
  show ?thesis
    by (simp add: share_bucket_def PERMISSION_LEVELS_def split1_def demo_erin subscript_str_def p a)
qed

lemma demo_share_twice:
  "share_bucket demo_shared_once ''2024-01-06T08:00:00'' ''alice'' ''alice_docs'' ''erin@example.org'' ''full''
     = Inr ((True, PermissionUpdatedTo ''Full Access''), demo_shared_twice)"
proof -
  have u: "get_user_by_email demo_shared_once ''erin@example.org'' =
      get_user_by_email demo_state ''erin@example.org''"
    by (simp add: get_user_by_email_def demo_shared_once_def)
  have p: "get_permission demo_shared_once ''alice_docs'' ''erin'' = Some (erin_share ''view'')"
    by (simp add: get_permission_def demo_shared_once_def demo_state_def)
  have e: "erin_share ''view'' = (''bucket_id'', JStr ''alice_docs'') # tl (erin_share ''view'')"
    by (simp add: erin_share_def)
  have a: "update_permission demo_shared_once ''alice_docs'' ''erin'' ''full''
             = (True, demo_shared_twice)"
    by (simp add: update_permission_def write_json_def demo_shared_once_def
        demo_shared_twice_def erin_share_def demo_state_def)
  have "share_bucket demo_shared_once ''2024-01-06T08:00:00'' ''alice'' ''alice_docs'' ''erin@example.org'' ''full''
     = (case get_permission demo_shared_once ''alice_docs'' ''erin'' of
          Some (_ # _) \<Rightarrow>
            (case update_permission demo_shared_once ''alice_docs'' ''erin'' ''full'' of
               (True, st') \<Rightarrow> Inr ((True, PermissionUpdatedTo ''Full Access''), st')
             | (False, st') \<Rightarrow> Inr ((False, FailedToUpdatePermission), st'))
        | _ \<Rightarrow>
            (case add_permission demo_shared_once ''2024-01-06T08:00:00'' ''alice_docs'' ''alice''
                    ''erin'' ''full'' of
               (True, st') \<Rightarrow> Inr ((True, BucketSharedWith ''Full Access''), st')
             | (False, st') \<Rightarrow> Inr ((False, FailedToShareBucket), st')))"
  proof (rule share_bucket_unfold)
    show "map_of PERMISSION_LEVELS ''full'' = Some ''Full Access''"
      by (simp add: PERMISSION_LEVELS_def)
    show "length (split1 ''alice_docs'') = 2" "hd (split1 ''alice_docs'') = ''alice''"
      by (simp_all add: split1_def)
    show "get_user_by_email demo_shared_once ''erin@example.org'' =
       Inr (Some [(''email'', JStr ''erin@example.org''), (''password_hash'', JStr ''h5''),
                (''user_id'', JStr ''erin''), (''created_date'', JStr ''2024-01-01T09:20:00'')])"
      unfolding u by (rule demo_erin)
    show "subscript_str [(''email'', JStr ''erin@example.org''), (''password_hash'', JStr ''h5''),
                (''user_id'', JStr ''erin''), (''created_date'', JStr ''2024-01-01T09:20:00'')]
             ''user_id'' = Inr ''erin''"
      by (simp add: subscript_str_def)
    show "''erin'' \<noteq> ''alice''" by simp
  qed
  also have "\<dots> = Inr ((True, PermissionUpdatedTo ''Full Access''), demo_shared_twice)"
    unfolding p by (subst e) (simp add: a)
  finally show ?thesis .
qed

theorem share_twice_one_record_witness:
  "permissions_wf demo_state \<and>
   share_bucket demo_state ''2024-01-05T08:00:00'' ''alice'' ''alice_docs'' ''erin@example.org'' ''view''
     = Inr ((True, BucketSharedWith ''View Only''), demo_shared_once) \<and>
   share_bucket demo_shared_once ''2024-01-06T08:00:00'' ''alice'' ''alice_docs'' ''erin@example.org'' ''full''
     = Inr ((True, PermissionUpdatedTo ''Full Access''), demo_shared_twice) \<and>
   (\<exists>perm. records_for demo_shared_twice ''alice_docs'' ''erin'' = [perm] \<and>
           map_of perm ''permission_level'' = Some (JStr ''full'')) \<and>
   map fst (permissions demo_shared_twice) = map fst (permissions demo_shared_once)"
proof -
  have g: "subscript_str [(''email'', JStr ''erin@example.org''), (''password_hash'', JStr ''h5''),
                (''user_id'', JStr ''erin''), (''created_date'', JStr ''2024-01-01T09:20:00'')]
             ''user_id'' = Inr ''erin''"
    by (simp add: subscript_str_def)
  have n: "CHR ''_'' \<notin> set ''erin''" by simp
  from share_twice_one_record[OF demo_wf demo_erin g n demo_share_once demo_share_twice]
    demo_wf demo_share_once demo_share_twice
  show ?thesis by simp
qed

theorem share_bucket_never_checks_bucket_witness:
  "''ghost'' \<notin> set (get_user_buckets demo_state ''alice'') \<and>
   (\<exists>m st' perm.
      share_bucket demo_state ''2024-01-05T08:00:00'' ''alice'' ''alice_ghost'' ''erin@example.org'' ''view''
        = Inr ((True, m), st') \<and>
      get_permission st' ''alice_ghost'' ''erin'' = Some perm \<and>
      map_of perm ''permission_level'' = Some (JStr ''view'') \<and>
      bucket_dirs st' = bucket_dirs demo_state) \<and>
   share_bucket demo_state ''2024-01-05T08:00:00'' ''alice'' ''alice_ghost'' ''zed@example.org'' ''view''
     = Inr ((False, UserNotFound), demo_state) \<and>
   get_user_by_email demo_state ''zed@example.org'' = Inr None"
proof -
  have g: "subscript_str [(''email'', JStr ''erin@example.org''), (''password_hash'', JStr ''h5''),
                (''user_id'', JStr ''erin''), (''created_date'', JStr ''2024-01-01T09:20:00'')]
             ''user_id'' = Inr ''erin''"
    by (simp add: subscript_str_def)
  have lv: "map_of PERMISSION_LEVELS ''view'' = Some ''View Only''"
    by (simp add: PERMISSION_LEVELS_def)
  have io: "io demo_state = []" by (simp add: demo_state_def)
  have z: "get_user_by_email demo_state ''zed@example.org'' = Inr None"
    by (simp add: get_user_by_email_def demo_state_def subscript_def)
  have f: "share_bucket demo_state ''2024-01-05T08:00:00'' ''alice'' ''alice_ghost'' ''zed@example.org'' ''view''
     = Inr ((False, UserNotFound), demo_state)"
    by (simp add: share_bucket_def lv split1_def z)
  have d: "''ghost'' \<notin> set (get_user_buckets demo_state ''alice'')"
    by (simp add: get_user_buckets_def demo_state_def)
  from share_bucket_never_checks_bucket[of "''view''" "''View Only''" "''alice''" demo_state
      "''erin@example.org''" _ "''erin''" "''2024-01-05T08:00:00''" "''ghost''" "''alice_ghost''"]
    demo_erin g lv io z f d
  show ?thesis by simp
qed

section \<open>Upload validation\<close>

lemma suffix_exe: "lower (suffix_of ''setup.exe'') = ''.exe''"
  by (simp add: suffix_of_def lower_def lower_char_def)

text \<open>
  Against C5 as stated: with the configuration of \<open>config.py\<close>, \<open>setup.exe\<close> has a
  blocked extension and is refused by the allow-list check, which comes first; the
  blocked-set check is not reached.
\<close>

theorem blocked_check_comes_second_counterexample:
  "''.exe'' \<in> set (BLOCKED_EXTENSIONS Config) \<and>
   lower (suffix_of ((\<lambda>n. n) (filename exe_file))) = ''.exe'' \<and>
   validate_file Config (\<lambda>n. n) (Some exe_file) =
     (False, FileTypeNotAllowed (ALLOWED_EXTENSIONS Config))"
  by (simp add: validate_file_def exe_file_def suffix_exe Config_def)

text \<open>
  C5, amended. For every configuration, an upload whose sanitized file name has an
  extension in the blocked set is rejected and leaves the state as it was (no bytes are
  stored), also when the extension is in the allowed set. The allowed-set check is
  applied first: a named file of admissible length is refused with the allow-list
  message when the allow-list is non-empty and lacks the extension, and with the
  blocked-set message otherwise.
\<close>

theorem blocked_extension_rejected:
  assumes "lower (suffix_of (secure_filename (filename f))) \<in> set (BLOCKED_EXTENSIONS cfg)"
  shows "\<not> fst (validate_file cfg secure_filename (Some f)) \<and>
         (\<exists>msg. upload_file cfg secure_filename st env user_id bucket_name (Some f) =
                  ((False, msg, []), st)) \<and>
         (filename f \<noteq> [] \<and> \<not> (content_length f \<noteq> 0 \<and> content_length f > MAX_FILE_SIZE cfg) \<longrightarrow>
            validate_file cfg secure_filename (Some f) =
              (False,
               if ALLOWED_EXTENSIONS cfg \<noteq> [] \<and>
                  lower (suffix_of (secure_filename (filename f))) \<notin> set (ALLOWED_EXTENSIONS cfg)
               then FileTypeNotAllowed (ALLOWED_EXTENSIONS cfg)
               else NotAllowedForSecurityReasons))"
proof -
  have v: "\<not> fst (validate_file cfg secure_filename (Some f))"
    using assms by (simp add: validate_file_def Let_def)
  then obtain msg where m: "validate_file cfg secure_filename (Some f) = (False, msg)"
    by (cases "validate_file cfg secure_filename (Some f)") auto
  have u: "\<exists>msg. upload_file cfg secure_filename st env user_id bucket_name (Some f) =
                  ((False, msg, []), st)"
    by (simp add: upload_file_def m)
  have o: "filename f \<noteq> [] \<and> \<not> (content_length f \<noteq> 0 \<and> content_length f > MAX_FILE_SIZE cfg) \<longrightarrow>
            validate_file cfg secure_filename (Some f) =
              (False,
               if ALLOWED_EXTENSIONS cfg \<noteq> [] \<and>
                  lower (suffix_of (secure_filename (filename f))) \<notin> set (ALLOWED_EXTENSIONS cfg)
               then FileTypeNotAllowed (ALLOWED_EXTENSIONS cfg)
               else NotAllowedForSecurityReasons)"
    using assms by (simp add: validate_file_def Let_def)
  from v u o show ?thesis by blast
qed

theorem blocked_extension_rejected_witness:
  "''.exe'' \<in> set (BLOCKED_EXTENSIONS Config_exe_allowed) \<and>
   ''.exe'' \<in> set (ALLOWED_EXTENSIONS Config_exe_allowed) \<and>
   validate_file Config_exe_allowed (\<lambda>n. n) (Some exe_file) = (False, NotAllowedForSecurityReasons) \<and>
   (\<exists>msg. upload_file Config_exe_allowed (\<lambda>n. n) demo_state
            \<lparr>new_id = ''f2'', now_iso = ''2024-01-05T08:00:00'', save = SaveOk\<rparr>
            ''alice'' ''docs'' (Some exe_file) = ((False, msg, []), demo_state))"
proof -
  have e: "lower (suffix_of ((\<lambda>n. n) (filename exe_file))) = ''.exe''"
    by (simp add: exe_file_def suffix_exe)
  have b: "''.exe'' \<in> set (BLOCKED_EXTENSIONS Config_exe_allowed)"
    by (simp add: Config_exe_allowed_def Config_def)
  have a: "''.exe'' \<in> set (ALLOWED_EXTENSIONS Config_exe_allowed)"
    by (simp add: Config_exe_allowed_def)
  have s: "filename exe_file \<noteq> [] \<and> content_length exe_file = 2 \<and>
           MAX_FILE_SIZE Config_exe_allowed = 104857600"
    by (simp add: exe_file_def Config_exe_allowed_def Config_def)
  from blocked_extension_rejected[of "\<lambda>n. n" exe_file Config_exe_allowed demo_state
      "\<lparr>new_id = ''f2'', now_iso = ''2024-01-05T08:00:00'', save = SaveOk\<rparr>" "''alice''" "''docs''"]
    e b a s
  show ?thesis by simp
qed

section \<open>Rename\<close>

lemma dict_update_single: "dict_update r [(k, v)] = AList.update k v r"
  by (simp add: dict_update_def)

lemma write_metadata_and_index:
  assumes "write_json st FILE_METADATA_FILE m = (s1, st1)"
    and "write_json st1 SEARCH_INDEX_FILE x = (s2, st2)" and "s1 \<and> s2"
  shows "file_metadata st2 = m \<and> search_index st2 = x \<and> users st2 = users st \<and>
         permissions st2 = permissions st \<and> files st2 = files st \<and>
         bucket_dirs st2 = bucket_dirs st"
proof -
  from assms have a: "write_json st FILE_METADATA_FILE m = (True, st1)"
    and b: "write_json st1 SEARCH_INDEX_FILE x = (True, st2)" by simp_all
  note A = write_json_True[OF a] and B = write_json_True[OF b]
  from A have "file_metadata st1 = m" "users st1 = users st" "permissions st1 = permissions st"
    "files st1 = files st" "bucket_dirs st1 = bucket_dirs st"
    by (auto dest: spec[where x = USERS_FILE] spec[where x = PERMISSIONS_FILE])
  moreover from B have "search_index st2 = x" "file_metadata st2 = file_metadata st1"
    "users st2 = users st1" "permissions st2 = permissions st1"
    "files st2 = files st1" "bucket_dirs st2 = bucket_dirs st1"
    by (auto dest: spec[where x = USERS_FILE] spec[where x = PERMISSIONS_FILE]
        spec[where x = FILE_METADATA_FILE])
  ultimately show ?thesis by simp
qed

lemma rename_file_success:
  assumes "rename_file strip st user_id file_id new_name = Inr ((True, m), st')"
  shows "\<exists>r. get_file_metadata st file_id = Some r \<and> strip new_name \<noteq> [] \<and>
           file_metadata st' =
             AList.update file_id (AList.update ''file_name'' (JStr (strip new_name)) r)
               (file_metadata st) \<and>
           search_index st' =
             (case map_of (search_index st) file_id of
                Some e \<Rightarrow>
                  AList.update file_id (AList.update ''file_name'' (JStr (strip new_name)) e)
                    (search_index st)
              | None \<Rightarrow> search_index st) \<and>
           users st' = users st \<and> permissions st' = permissions st \<and>
           files st' = files st \<and> bucket_dirs st' = bucket_dirs st"
proof (cases "get_file_metadata st file_id")
  case None
  with assms show ?thesis by (simp add: rename_file_def)
next
  case (Some r)
  note r = this
  show ?thesis
  proof (cases r)
    case Nil
    with assms r show ?thesis by (simp add: rename_file_def)
  next
    case (Cons kv kvs)
    note c = this
    show ?thesis
    proof (cases "subscript_str r ''bucket_id''")
      case (Inl e)
      with assms r c show ?thesis by (simp add: rename_file_def)
    next
      case (Inr bucket_id)
      note b = this
      show ?thesis
      proof (cases "check_bucket_access st user_id bucket_id ''full''")
        case (Inl e)
        with assms r c b show ?thesis by (simp add: rename_file_def)
      next
        case (Inr ok)
        note a = this
        show ?thesis
        proof (cases "ok \<and> \<not> (new_name = [] \<or> length (strip new_name) = 0)")
          case False
          with assms r c b a show ?thesis by (cases ok) (auto simp: rename_file_def)
        next
          case True
          let ?m = "AList.update file_id (AList.update ''file_name'' (JStr (strip new_name)) r)
               (file_metadata st)"
          let ?x = "(case map_of (search_index st) file_id of
                Some e \<Rightarrow>
                  AList.update file_id (AList.update ''file_name'' (JStr (strip new_name)) e)
                    (search_index st)
              | None \<Rightarrow> search_index st)"
          obtain s1 st1 where w1: "write_json st FILE_METADATA_FILE ?m = (s1, st1)"
            by (cases "write_json st FILE_METADATA_FILE ?m")
          obtain s2 st2 where w2: "write_json st1 SEARCH_INDEX_FILE ?x = (s2, st2)"
            by (cases "write_json st1 SEARCH_INDEX_FILE ?x")
          from r have mo: "map_of (file_metadata st) file_id = Some r"
            by (simp add: get_file_metadata_def)
          have "rename_file strip st user_id file_id new_name =
              (if s1 \<and> s2 then Inr ((True, FileRenamedSuccessfully), st2)
               else Inr ((False, FailedToUpdateFileName), st2))"
            using r c b a True mo w1 w2
            by (simp add: rename_file_def Let_def dict_update_single)
          with assms have s: "s1 \<and> s2" and e: "st2 = st'"
            by (auto split: if_splits)
          from write_metadata_and_index[OF w1 w2 s] r True show ?thesis
            unfolding e by simp
        qed
      qed
    qed
  qed
qed

text \<open>
  C9, amended. A rename that succeeds was given a name that is not empty after
  stripping (\<open>strip\<close> is any function here, so Python's \<open>str.strip\<close> too), and it changes
  the \<open>file_name\<close> field only: in the object metadata record of the file, and in the
  search index entry of the file when there is one. A file without index entry (the
  upload whose index write failed leaves one) is renamed all the same, and the index
  is then as before. Every other field of both records, so also \<open>file_path\<close> and
  \<open>stored_filename\<close>, every other record and entry, the users, the permissions, the
  stored files and the bucket directories are as before.
\<close>

theorem rename_changes_only_file_name:
  assumes "rename_file strip st user_id file_id new_name = Inr ((True, m), st')"
  shows "\<exists>r r'. get_file_metadata st file_id = Some r \<and> get_file_metadata st' file_id = Some r' \<and>
           strip new_name \<noteq> [] \<and>
           map_of r' ''file_name'' = Some (JStr (strip new_name)) \<and>
           (\<forall>k. k \<noteq> ''file_name'' \<longrightarrow> map_of r' k = map_of r k) \<and>
           (\<forall>f. f \<noteq> file_id \<longrightarrow> get_file_metadata st' f = get_file_metadata st f) \<and>
           (\<forall>e. map_of (search_index st) file_id = Some e \<longrightarrow>
              (\<exists>e'. map_of (search_index st') file_id = Some e' \<and>
                    map_of e' ''file_name'' = Some (JStr (strip new_name)) \<and>
                    (\<forall>k. k \<noteq> ''file_name'' \<longrightarrow> map_of e' k = map_of e k))) \<and>
           (\<forall>f. f \<noteq> file_id \<longrightarrow> map_of (search_index st') f = map_of (search_index st) f) \<and>
           (map_of (search_index st) file_id = None \<longrightarrow> search_index st' = search_index st) \<and>
           users st' = users st \<and> permissions st' = permissions st \<and>
           files st' = files st \<and> bucket_dirs st' = bucket_dirs st"
proof -
  from rename_file_success[OF assms] obtain r where
    r: "get_file_metadata st file_id = Some r" and n: "strip new_name \<noteq> []"
    and fm: "file_metadata st' =
             AList.update file_id (AList.update ''file_name'' (JStr (strip new_name)) r)
               (file_metadata st)"
    and si: "search_index st' =
             (case map_of (search_index st) file_id of
                Some e \<Rightarrow>
                  AList.update file_id (AList.update ''file_name'' (JStr (strip new_name)) e)
                    (search_index st)
              | None \<Rightarrow> search_index st)"
    and rest: "users st' = users st" "permissions st' = permissions st"
      "files st' = files st" "bucket_dirs st' = bucket_dirs st"
    by blast
  let ?r' = "AList.update ''file_name'' (JStr (strip new_name)) r"
  have 1: "get_file_metadata st' file_id = Some ?r'"
    by (simp add: get_file_metadata_def fm update_conv')
  have 2: "map_of ?r' ''file_name'' = Some (JStr (strip new_name))"
    by (simp add: update_conv')
  have 3: "\<forall>k. k \<noteq> ''file_name'' \<longrightarrow> map_of ?r' k = map_of r k"
    by (simp add: update_conv')
  have 4: "\<forall>f. f \<noteq> file_id \<longrightarrow> get_file_metadata st' f = get_file_metadata st f"
    by (simp add: get_file_metadata_def fm update_conv')
  have 5: "\<forall>e. map_of (search_index st) file_id = Some e \<longrightarrow>
              (\<exists>e'. map_of (search_index st') file_id = Some e' \<and>
                    map_of e' ''file_name'' = Some (JStr (strip new_name)) \<and>
                    (\<forall>k. k \<noteq> ''file_name'' \<longrightarrow> map_of e' k = map_of e k))"
    by (simp add: si update_conv')
  have 6: "\<forall>f. f \<noteq> file_id \<longrightarrow> map_of (search_index st') f = map_of (search_index st) f"
    by (cases "map_of (search_index st) file_id") (simp_all add: si update_conv')
  have 7: "map_of (search_index st) file_id = None \<longrightarrow> search_index st' = search_index st"
    by (simp add: si)
  show ?thesis
    by (intro exI[of _ r] exI[of _ ?r'] conjI r 1 n 2 3 4 5 6 7 rest)
qed

lemma demo_rename:
  "rename_file demo_strip demo_state ''alice'' ''f1'' ''  final.pdf '' =
     Inr ((True, FileRenamedSuccessfully), demo_renamed)"
  by (simp add: rename_file_def get_file_metadata_def subscript_str_def check_bucket_access_def
      split1_def demo_strip_def dict_update_def write_json_def demo_state_def
      demo_renamed_def)

theorem rename_changes_only_file_name_witness:
  "rename_file demo_strip demo_state ''alice'' ''f1'' ''  final.pdf '' =
     Inr ((True, FileRenamedSuccessfully), demo_renamed) \<and>
   (\<exists>r r'. get_file_metadata demo_state ''f1'' = Some r \<and>
           get_file_metadata demo_renamed ''f1'' = Some r' \<and>
           map_of r' ''file_name'' = Some (JStr ''final.pdf'') \<and>
           map_of r' ''file_path'' = map_of r ''file_path'' \<and>
           map_of r' ''stored_filename'' = map_of r ''stored_filename'') \<and>
   files demo_renamed = files demo_state"
proof -
  have s: "demo_strip ''  final.pdf '' = ''final.pdf''"
    by (simp add: demo_strip_def)
  from rename_changes_only_file_name[OF demo_rename] demo_rename show ?thesis
    unfolding s by (elim exE conjE) (simp (no_asm_simp))
qed

section \<open>Upload\<close>

lemma write_json_outcome:
  "write_json st f d =
     (outcome (io st) 0 = WOk,
      store f (written (outcome (io st) 0) d (read_json st f)) (st\<lparr>io := tl (io st)\<rparr>))"
proof (cases "io st")
  case Nil
  then show ?thesis by (cases f; cases st) (simp_all add: write_json_def outcome_def)
next
  case (Cons a rest)
  then show ?thesis by (cases f; cases a) (simp_all add: write_json_def outcome_def)
qed

lemma outcome_tl: "outcome (tl os) n = outcome os (Suc n)"
  by (cases os) (simp_all add: outcome_def)

lemma add_file_metadata_outcome:
  assumes "map_of file_info ''file_id'' = Some (JStr fid)"
    and "project file_info
           [''file_name'', ''file_type'', ''size'', ''upload_date'', ''bucket_id'', ''user_id'']
         = Inr search_data"
  shows "add_file_metadata st fresh file_info =
     Inr (outcome (io st) 0 = WOk \<and> outcome (io st) 1 = WOk,
          st\<lparr>file_metadata :=
                written (outcome (io st) 0) (AList.update fid file_info (file_metadata st))
                  (file_metadata st),
              search_index :=
                written (outcome (io st) 1) (AList.update fid search_data (search_index st))
                  (search_index st),
              io := tl (tl (io st))\<rparr>)"
proof -
  have u: "AList.update ''file_id'' (JStr fid) file_info = file_info"
    using assms(1) by (simp add: update_triv)
  have "add_file_metadata st fresh file_info =
      (case write_json st FILE_METADATA_FILE (AList.update fid file_info (file_metadata st)) of
         (success1, st1) \<Rightarrow>
           (case write_json st1 SEARCH_INDEX_FILE (AList.update fid search_data (search_index st)) of
              (success2, st2) \<Rightarrow> Inr (success1 \<and> success2, st2)))"
    unfolding add_file_metadata_def Let_def
    by (simp only: assms option.case jval.case u sum.case read_json.simps)
  then show ?thesis
    by (simp add: write_json_outcome outcome_tl)
qed

lemma project_object_record:
  "project (object_record sf env u b f)
     [''file_name'', ''file_type'', ''size'', ''upload_date'', ''bucket_id'', ''user_id'']
   = Inr (index_entry sf env u b f)"
  by (simp add: object_record_def index_entry_def subscript_def)

lemma upload_file_saved:
  assumes "filename f \<noteq> []" "bucket_name \<in> set (get_user_buckets st user_id)"
    and "fst (validate_file cfg sf (Some f))" "save env = SaveOk"
  shows "upload_file cfg sf st env user_id bucket_name (Some f) =
     (let path = object_path sf env user_id bucket_name f;
          st1 = st\<lparr>files := AList.update path (stream f) (files st)\<rparr>;
          st2 = st1\<lparr>
            file_metadata :=
              written (outcome (io st) 0)
                (AList.update (new_id env) (object_record sf env user_id bucket_name f)
                   (file_metadata st)) (file_metadata st),
            search_index :=
              written (outcome (io st) 1)
                (AList.update (new_id env) (index_entry sf env user_id bucket_name f)
                   (search_index st)) (search_index st),
            io := tl (tl (io st))\<rparr>
      in if outcome (io st) 0 = WOk \<and> outcome (io st) 1 = WOk
         then ((True, FileUploadedSuccessfully, object_record sf env user_id bucket_name f), st2)
         else ((False, FailedToSaveFileMetadata, []),
               st2\<lparr>files := AList.delete path (files st2)\<rparr>))"
proof -
  from assms(3) have v: "validate_file cfg sf (Some f) = (True, snd (validate_file cfg sf (Some f)))"
    by (cases "validate_file cfg sf (Some f)") simp
  from assms(2) have "(user_id, bucket_name) \<in> set (bucket_dirs st)"
    by (auto simp: get_user_buckets_def)
  then have d: "List.insert (user_id, bucket_name) (bucket_dirs st) = bucket_dirs st"
    by (simp add: List.insert_def)
  have d': "st\<lparr>bucket_dirs := bucket_dirs st\<rparr> = st" by simp
  let ?st1 = "st\<lparr>files := AList.update (object_path sf env user_id bucket_name f) (stream f) (files st)\<rparr>"
  have m: "map_of (object_record sf env user_id bucket_name f) ''file_id'' = Some (JStr (new_id env))"
    by (simp add: object_record_def)
  note a = add_file_metadata_outcome[OF m project_object_record, of ?st1 "new_id env"]
  have "upload_file cfg sf st env user_id bucket_name (Some f) =
      (case add_file_metadata ?st1 (new_id env) (object_record sf env user_id bucket_name f) of
         Inl e \<Rightarrow> ((False, FailedToUploadFile e, []), ?st1)
       | Inr (False, st2) \<Rightarrow>
           ((False, FailedToSaveFileMetadata, []),
            st2\<lparr>files := AList.delete (object_path sf env user_id bucket_name f) (files st2)\<rparr>)
       | Inr (True, st2) \<Rightarrow>
           ((True, FileUploadedSuccessfully, object_record sf env user_id bucket_name f), st2))"
    unfolding upload_file_def Let_def
    apply (subst v)
    apply (simp only: option.case assms if_False if_True not_True_eq_False not_False_eq_True
        prod.case bool.case save_outcome.case d d')
    apply (simp only: object_record_def object_path_def append_assoc)
    done
  then show ?thesis
    unfolding a
    by (simp add: Let_def bool.case_eq_if)
qed

lemma notes_valid: "fst (validate_file Config (\<lambda>n. n) (Some notes_file))"
  by (simp add: validate_file_def notes_file_def suffix_of_def lower_def lower_char_def Config_def)

lemma notes_path:
  "object_path (\<lambda>n. n) demo_env ''alice'' ''docs'' notes_file = ''data/uploads/alice/docs/f2.txt''"
  by (simp add: object_path_def bucket_path_of_def UPLOADS_DIR_def demo_env_def notes_file_def
      suffix_of_def)

text \<open>
  Against C2 as stated: the object metadata is written, the write of the search index
  fails; the upload reports failure and deletes the bytes, and the object metadata
  record stays, pointing at a path that holds no file.
\<close>

theorem upload_leaves_metadata_counterexample:
  "fst (upload_file Config (\<lambda>n. n) demo_index_write_fails demo_env ''alice'' ''docs''
          (Some notes_file)) = (False, FailedToSaveFileMetadata, []) \<and>
   get_file_metadata
     (snd (upload_file Config (\<lambda>n. n) demo_index_write_fails demo_env ''alice'' ''docs''
             (Some notes_file))) ''f2'' =
     Some (object_record (\<lambda>n. n) demo_env ''alice'' ''docs'' notes_file) \<and>
   map_of (object_record (\<lambda>n. n) demo_env ''alice'' ''docs'' notes_file) ''file_path'' =
     Some (JStr ''data/uploads/alice/docs/f2.txt'') \<and>
   map_of
     (files (snd (upload_file Config (\<lambda>n. n) demo_index_write_fails demo_env ''alice'' ''docs''
                    (Some notes_file)))) ''data/uploads/alice/docs/f2.txt'' = None"
proof -
  have f: "filename notes_file \<noteq> []" by (simp add: notes_file_def)
  have b: "''docs'' \<in> set (get_user_buckets demo_index_write_fails ''alice'')"
    by (simp add: get_user_buckets_def demo_index_write_fails_def demo_state_def)
  have s: "save demo_env = SaveOk" by (simp add: demo_env_def)
  have o: "outcome (io demo_index_write_fails) 0 = WOk"
    "outcome (io demo_index_write_fails) 1 = WFail"
    by (simp_all add: outcome_def demo_index_write_fails_def)
  have n: "new_id demo_env = ''f2''" by (simp add: demo_env_def)
  have p: "map_of (object_record (\<lambda>n. n) demo_env ''alice'' ''docs'' notes_file) ''file_path'' =
     Some (JStr ''data/uploads/alice/docs/f2.txt'')"
    by (simp add: object_record_def notes_path)
  show ?thesis
    unfolding upload_file_saved[OF f b notes_valid s] Let_def o notes_path n
    by (simp add: get_file_metadata_def update_conv' delete_conv' p[unfolded notes_path])
qed

text \<open>
  C2, amended. When an upload has written the bytes (named file, existing bucket of the
  user, valid file, working save) and one of the two metadata writes does not succeed,
  the upload returns failure and deletes the written bytes: no file is left at the
  object's path, and directories, users and permissions are as before. The two
  metadata files are not rolled back: each holds what its own write left, so the
  object record (the index entry) is there when its write succeeded, its file is as
  before when the write failed before opening it, and is empty when the write failed
  midway.
\<close>

theorem upload_metadata_failure:
  assumes "filename f \<noteq> []" "bucket_name \<in> set (get_user_buckets st user_id)"
    and "fst (validate_file cfg sf (Some f))" "save env = SaveOk"
    and "\<not> (outcome (io st) 0 = WOk \<and> outcome (io st) 1 = WOk)"
  shows "\<exists>st'. upload_file cfg sf st env user_id bucket_name (Some f) =
                 ((False, FailedToSaveFileMetadata, []), st') \<and>
           map_of (files st') (object_path sf env user_id bucket_name f) = None \<and>
           files st' = AList.delete (object_path sf env user_id bucket_name f) (files st) \<and>
           bucket_dirs st' = bucket_dirs st \<and> users st' = users st \<and>
           permissions st' = permissions st \<and>
           file_metadata st' =
             written (outcome (io st) 0)
               (AList.update (new_id env) (object_record sf env user_id bucket_name f)
                  (file_metadata st)) (file_metadata st) \<and>
           search_index st' =
             written (outcome (io st) 1)
               (AList.update (new_id env) (index_entry sf env user_id bucket_name f)
                  (search_index st)) (search_index st)"
  unfolding upload_file_saved[OF assms(1-4)] Let_def
  using assms(5) by (simp add: delete_conv' delete_update_same)

theorem upload_metadata_failure_witness:
  "filename notes_file \<noteq> [] \<and> ''docs'' \<in> set (get_user_buckets demo_both_writes_fail ''alice'') \<and>
   fst (validate_file Config (\<lambda>n. n) (Some notes_file)) \<and>
   outcome (io demo_both_writes_fail) 0 = WFail \<and> outcome (io demo_both_writes_fail) 1 = WTrunc \<and>
   (\<exists>st'. upload_file Config (\<lambda>n. n) demo_both_writes_fail demo_env ''alice'' ''docs''
            (Some notes_file) = ((False, FailedToSaveFileMetadata, []), st') \<and>
          map_of (files st') ''data/uploads/alice/docs/f2.txt'' = None \<and>
          file_metadata st' = file_metadata demo_state \<and> search_index st' = [])"
proof -
  have f: "filename notes_file \<noteq> []" by (simp add: notes_file_def)
  have b: "''docs'' \<in> set (get_user_buckets demo_both_writes_fail ''alice'')"
    by (simp add: get_user_buckets_def demo_both_writes_fail_def demo_state_def)
  have s: "save demo_env = SaveOk" by (simp add: demo_env_def)
  have o: "outcome (io demo_both_writes_fail) 0 = WFail"
    "outcome (io demo_both_writes_fail) 1 = WTrunc"
    by (simp_all add: outcome_def demo_both_writes_fail_def)
  have n: "\<not> (outcome (io demo_both_writes_fail) 0 = WOk \<and> outcome (io demo_both_writes_fail) 1 = WOk)"
    by (simp add: o)
  have m: "file_metadata demo_both_writes_fail = file_metadata demo_state"
    by (simp add: demo_both_writes_fail_def)
  have o2: "outcome (io demo_both_writes_fail) (Suc 0) = WTrunc"
    using o(2) by simp
  from upload_metadata_failure[OF f b notes_valid s n] f b notes_valid o m
  show ?thesis
    unfolding notes_path by (elim exE conjE) (simp (no_asm_simp) add: o o2 m delete_conv')
qed

section \<open>Bucket deletion\<close>

lemma writes_ok_outcome: "list_all (\<lambda>w. w = WOk) os \<Longrightarrow> outcome os n = WOk"
  by (auto simp: outcome_def list_all_length)

lemma writes_ok_tl: "list_all (\<lambda>w. w = WOk) os \<Longrightarrow> list_all (\<lambda>w. w = WOk) (tl os)"
  by (cases os) simp_all

lemma delete_file_metadata_ok:
  assumes "list_all (\<lambda>w. w = WOk) (io st)"
  shows "delete_file_metadata st file_id =
     (True, st\<lparr>file_metadata := del_key file_id (file_metadata st),
               search_index := del_key file_id (search_index st),
               io := tl (tl (io st))\<rparr>)"
  using writes_ok_outcome[OF assms, of 0] writes_ok_outcome[OF assms, of 1]
  by (simp add: delete_file_metadata_def write_json_outcome outcome_tl)

lemma delete_all_ok:
  assumes "list_all (\<lambda>w. w = WOk) (io st)" "map (\<lambda>d. map_of d ''file_id'') ds = map Some ids"
  shows "\<exists>os. delete_all st ds =
     (Inr True, st\<lparr>file_metadata := fold del_key ids (file_metadata st),
                   search_index := fold del_key ids (search_index st),
                   io := os\<rparr>)"
  using assms
proof (induction ds arbitrary: st ids)
  case Nil
  then have "delete_all st [] = (Inr True, st\<lparr>file_metadata := fold del_key ids (file_metadata st),
                   search_index := fold del_key ids (search_index st), io := io st\<rparr>)"
    by simp
  then show ?case by blast
next
  case (Cons d ds)
  then obtain i js where ids: "ids = i # js" and i: "map_of d ''file_id'' = Some i"
    and rest: "map (\<lambda>d. map_of d ''file_id'') ds = map Some js"
    by (cases ids) auto
  let ?st1 = "st\<lparr>file_metadata := del_key i (file_metadata st),
               search_index := del_key i (search_index st),
               io := tl (tl (io st))\<rparr>"
  have ok1: "list_all (\<lambda>w. w = WOk) (io ?st1)"
    using Cons.prems(1) by (simp add: writes_ok_tl)
  from Cons.IH[OF ok1 rest] obtain os where
    "delete_all ?st1 ds =
      (Inr True, ?st1\<lparr>file_metadata := fold del_key js (file_metadata ?st1),
                   search_index := fold del_key js (search_index ?st1), io := os\<rparr>)"
    by blast
  then have "delete_all st (d # ds) =
     (Inr True, st\<lparr>file_metadata := fold del_key ids (file_metadata st),
                   search_index := fold del_key ids (search_index st),
                   io := os\<rparr>)"
    by (simp add: subscript_def i delete_file_metadata_ok[OF Cons.prems(1)] ids)
  then show ?case by blast
qed

lemma fold_del_key:
  "fold del_key ids al = filter (\<lambda>(k, v). JStr k \<notin> set ids) al"
proof (induction ids arbitrary: al)
  case Nil
  then show ?case by simp
next
  case (Cons i ids)
  have "del_key i al = filter (\<lambda>(k, v). JStr k \<noteq> i) al"
    by (cases i) (auto simp: AList.delete_eq intro: filter_cong)
  then show ?case
    by (auto simp: Cons.IH intro: filter_cong)
qed

lemma file_ids_of_bucket:
  "list_all (\<lambda>(k, r). map_of r ''file_id'' = Some (JStr k)) al \<Longrightarrow>
   map (\<lambda>d. map_of d ''file_id'') (filter P (map snd al)) =
     map Some (map JStr (map fst (filter (\<lambda>(k, r). P r) al)))"
  by (induction al) auto

lemma filter_keys_distinct:
  assumes "distinct (map fst al)"
  shows "filter (\<lambda>(k, v). k \<notin> set (map fst (filter (\<lambda>(k, r). P r) al))) al =
         filter (\<lambda>(k, r). \<not> P r) al"
proof (rule filter_cong[OF refl])
  fix x assume x: "x \<in> set al"
  obtain k r where kr: "x = (k, r)" by (cases x)
  have "k \<in> fst ` set (filter (\<lambda>(k, r). P r) al) \<longleftrightarrow> P r"
  proof
    assume "k \<in> fst ` set (filter (\<lambda>(k, r). P r) al)"
    then obtain r' where r': "(k, r') \<in> set al" "P r'" by auto
    from eq_key_imp_eq_value[OF assms r'(1)] x kr have "r' = r" by blast
    with r' show "P r" by simp
  next
    assume "P r"
    with x kr show "k \<in> fst ` set (filter (\<lambda>(k, r). P r) al)" by force
  qed
  with kr show "(case x of (k, v) \<Rightarrow> k \<notin> set (map fst (filter (\<lambda>(k, r). P r) al))) =
                (case x of (k, r) \<Rightarrow> \<not> P r)"
    by simp
qed

lemma fold_del_key_str:
  "fold del_key (map JStr ks) al = filter (\<lambda>(k, v). k \<notin> set ks) al"
  unfolding fold_del_key by (rule filter_cong) auto

lemma delete_bucket_state:
  assumes own: "bucket_name \<in> set (get_user_buckets st user_id)"
    and ok: "writes_ok st" and wf: "objects_wf st"
  shows "\<exists>os. delete_bucket st user_id bucket_name =
     ((True, BucketDeletedSuccessfully),
      st\<lparr>bucket_dirs := removeAll (user_id, bucket_name) (bucket_dirs st),
         files := filter (\<lambda>(p, c). \<not> prefix (bucket_path_of user_id bucket_name @ ''/'') p) (files st),
         file_metadata :=
           filter (\<lambda>(k, r). dget r ''bucket_id'' \<noteq> JStr (user_id @ ''_'' @ bucket_name))
             (file_metadata st),
         search_index :=
           filter (\<lambda>(k, e). k \<notin> set (bucket_object_ids st (user_id @ ''_'' @ bucket_name)))
             (search_index st),
         io := os\<rparr>)"
proof -
  let ?bid = "user_id @ ''_'' @ bucket_name"
  let ?st1 = "st\<lparr>bucket_dirs := removeAll (user_id, bucket_name) (bucket_dirs st),
         files := filter (\<lambda>(p, c). \<not> prefix (bucket_path_of user_id bucket_name @ ''/'') p) (files st)\<rparr>"
  let ?ids = "map JStr (bucket_object_ids st ?bid)"
  from wf have d: "distinct (map fst (file_metadata st))"
    and l: "list_all (\<lambda>(k, r). map_of r ''file_id'' = Some (JStr k)) (file_metadata st)"
    by (simp_all add: objects_wf_def)
  have ok1: "list_all (\<lambda>w. w = WOk) (io ?st1)" using ok by (simp add: writes_ok_def)
  have ids: "map (\<lambda>d. map_of d ''file_id'') (get_files_by_bucket ?st1 ?bid) = map Some ?ids"
    unfolding get_files_by_bucket_def bucket_object_ids_def
    using file_ids_of_bucket[OF l, of "\<lambda>r. dget r ''bucket_id'' = JStr ?bid"] by simp
  from delete_all_ok[OF ok1 ids] obtain os where
    da: "delete_all ?st1 (get_files_by_bucket ?st1 ?bid) =
       (Inr True, ?st1\<lparr>file_metadata := fold del_key ?ids (file_metadata ?st1),
                   search_index := fold del_key ?ids (search_index ?st1), io := os\<rparr>)"
    by blast
  have m: "fold del_key ?ids (file_metadata st) =
      filter (\<lambda>(k, r). dget r ''bucket_id'' \<noteq> JStr ?bid) (file_metadata st)"
    unfolding fold_del_key_str bucket_object_ids_def
    by (rule filter_keys_distinct[OF d])
  have x: "fold del_key ?ids (search_index st) =
      filter (\<lambda>(k, e). k \<notin> set (bucket_object_ids st ?bid)) (search_index st)"
    by (rule fold_del_key_str)
  have "delete_bucket st user_id bucket_name =
      ((True, BucketDeletedSuccessfully),
       ?st1\<lparr>file_metadata := fold del_key ?ids (file_metadata ?st1),
                   search_index := fold del_key ?ids (search_index ?st1), io := os\<rparr>)"
    using own da by (simp add: delete_bucket_def delete_bucket_metadata_def Let_def)
  then show ?thesis
    unfolding m[symmetric] x[symmetric] by auto
qed

lemma demo_writes_ok: "writes_ok demo_state"
  by (simp add: writes_ok_def demo_state_def)

lemma demo_objects_wf: "objects_wf demo_state"
  by (simp add: objects_wf_def demo_state_def)

lemma demo_owns_docs: "''docs'' \<in> set (get_user_buckets demo_state ''alice'')"
  by (simp add: get_user_buckets_def demo_state_def)

text \<open>
  Against C3 as stated: alice deletes her bucket \<open>docs\<close>; the delete succeeds and
  removes the objects of the bucket, and the three permission records that name the
  bucket are still listed for it.
\<close>

theorem delete_bucket_keeps_permissions_counterexample:
  "fst (delete_bucket demo_state ''alice'' ''docs'') = (True, BucketDeletedSuccessfully) \<and>
   get_files_by_bucket (snd (delete_bucket demo_state ''alice'' ''docs'')) ''alice_docs'' = [] \<and>
   map (\<lambda>p. dget p ''shared_with'')
     (get_permissions_by_bucket (snd (delete_bucket demo_state ''alice'' ''docs'')) ''alice_docs'') =
     [JStr ''bob'', JStr ''carol'', JStr ''dave'']"
proof -
  from delete_bucket_state[OF demo_owns_docs demo_writes_ok demo_objects_wf]
  obtain os where "delete_bucket demo_state ''alice'' ''docs'' =
     ((True, BucketDeletedSuccessfully),
      demo_state\<lparr>bucket_dirs := removeAll (''alice'', ''docs'') (bucket_dirs demo_state),
         files := filter (\<lambda>(p, c). \<not> prefix (bucket_path_of ''alice'' ''docs'' @ ''/'') p)
                    (files demo_state),
         file_metadata :=
           filter (\<lambda>(k, r). dget r ''bucket_id'' \<noteq> JStr (''alice'' @ ''_'' @ ''docs''))
             (file_metadata demo_state),
         search_index :=
           filter (\<lambda>(k, e). k \<notin> set (bucket_object_ids demo_state (''alice'' @ ''_'' @ ''docs'')))
             (search_index demo_state),
         io := os\<rparr>)"
    by blast
  then show ?thesis
    by (simp add: get_files_by_bucket_def get_permissions_by_bucket_def dget_def demo_state_def)
qed

text \<open>
  C3, amended. For every bucket owned by the user, with object metadata as the program
  writes it and every write succeeding, the delete of the bucket succeeds and removes
  the directory with the files below it, every object record whose \<open>bucket_id\<close> is the
  bucket's (and no other object record), and every search index entry stored under the
  id of such an object (and no other entry); when the index is in step with the object
  metadata, no index entry of the bucket remains. The permission records are left as
  they are: those that name the deleted bucket stay.
\<close>

theorem delete_bucket_cascade:
  assumes "bucket_name \<in> set (get_user_buckets st user_id)" "writes_ok st" "objects_wf st"
  shows "\<exists>st'. delete_bucket st user_id bucket_name = ((True, BucketDeletedSuccessfully), st') \<and>
           get_files_by_bucket st' (user_id @ ''_'' @ bucket_name) = [] \<and>
           file_metadata st' =
             filter (\<lambda>(k, r). dget r ''bucket_id'' \<noteq> JStr (user_id @ ''_'' @ bucket_name))
               (file_metadata st) \<and>
           search_index st' =
             filter (\<lambda>(k, e). k \<notin> set (bucket_object_ids st (user_id @ ''_'' @ bucket_name)))
               (search_index st) \<and>
           (index_in_step st \<longrightarrow>
              filter (\<lambda>e. dget e ''bucket_id'' = JStr (user_id @ ''_'' @ bucket_name))
                (map snd (search_index st')) = []) \<and>
           permissions st' = permissions st \<and> users st' = users st \<and>
           bucket_name \<notin> set (get_user_buckets st' user_id) \<and>
           files st' =
             filter (\<lambda>(p, c). \<not> prefix (bucket_path_of user_id bucket_name @ ''/'') p) (files st)"
proof -
  let ?bid = "user_id @ ''_'' @ bucket_name"
  from delete_bucket_state[OF assms] obtain os where
    e: "delete_bucket st user_id bucket_name =
     ((True, BucketDeletedSuccessfully),
      st\<lparr>bucket_dirs := removeAll (user_id, bucket_name) (bucket_dirs st),
         files := filter (\<lambda>(p, c). \<not> prefix (bucket_path_of user_id bucket_name @ ''/'') p) (files st),
         file_metadata :=
           filter (\<lambda>(k, r). dget r ''bucket_id'' \<noteq> JStr ?bid) (file_metadata st),
         search_index :=
           filter (\<lambda>(k, e). k \<notin> set (bucket_object_ids st ?bid)) (search_index st),
         io := os\<rparr>)" (is "_ = (_, ?st')")
    by blast
  have 1: "get_files_by_bucket ?st' ?bid = []"
    by (auto simp: get_files_by_bucket_def filter_empty_conv)
  have 2: "filter (\<lambda>e. dget e ''bucket_id'' = JStr ?bid) (map snd (search_index ?st')) = []"
    if s: "index_in_step st"
  proof -
    have "dget e ''bucket_id'' \<noteq> JStr ?bid"
      if m: "(k, e) \<in> set (search_index st)" "k \<notin> set (bucket_object_ids st ?bid)" for k e
    proof
      assume b: "dget e ''bucket_id'' = JStr ?bid"
      from s m(1) obtain r where r: "map_of (file_metadata st) k = Some r"
        "dget r ''bucket_id'' = dget e ''bucket_id''"
        by (auto simp: index_in_step_def list_all_iff split: option.splits)
      from map_of_SomeD[OF r(1)] r(2) b have "k \<in> set (bucket_object_ids st ?bid)"
        by (force simp: bucket_object_ids_def)
      with m(2) show False by simp
    qed
    then show ?thesis by (auto simp: filter_empty_conv)
  qed
  have 3: "bucket_name \<notin> set (get_user_buckets ?st' user_id)"
    by (auto simp: get_user_buckets_def)
  show ?thesis
    unfolding e using 1 2 3 by (intro exI[of _ ?st']) simp
qed

theorem delete_bucket_cascade_witness:
  "''docs'' \<in> set (get_user_buckets demo_state ''alice'') \<and> writes_ok demo_state \<and>
   objects_wf demo_state \<and> index_in_step demo_state \<and>
   (\<exists>st'. delete_bucket demo_state ''alice'' ''docs'' = ((True, BucketDeletedSuccessfully), st') \<and>
          get_files_by_bucket st' ''alice_docs'' = [] \<and> file_metadata st' = [] \<and>
          search_index st' = [] \<and> files st' = [] \<and>
          permissions st' = permissions demo_state)"
proof -
  have s: "index_in_step demo_state"
    by (simp add: index_in_step_def dget_def demo_state_def)
  have m: "filter (\<lambda>(k, r). dget r ''bucket_id'' \<noteq> JStr ''alice_docs'') (file_metadata demo_state) = []"
    by (simp add: dget_def demo_state_def)
  have x: "filter (\<lambda>(k, e). k \<notin> set (bucket_object_ids demo_state ''alice_docs''))
             (search_index demo_state) = []"
    by (simp add: bucket_object_ids_def dget_def demo_state_def)
  have f: "filter (\<lambda>(p, c). \<not> prefix (bucket_path_of ''alice'' ''docs'' @ ''/'') p) (files demo_state) = []"
    by (simp add: bucket_path_of_def UPLOADS_DIR_def demo_state_def)
  from delete_bucket_cascade[OF demo_owns_docs demo_writes_ok demo_objects_wf]
    demo_owns_docs demo_writes_ok demo_objects_wf s
  show ?thesis
    by (elim exE conjE) (simp add: m x f)
qed

section \<open>Search: access control\<close>

lemma subscripts_set:
  "subscripts ds k = Inr vs \<Longrightarrow> a \<in> set vs \<longleftrightarrow> (\<exists>d \<in> set ds. map_of d k = Some a)"
proof (induction ds arbitrary: vs)
  case Nil
  then show ?case by simp
next
  case (Cons d ds)
  then show ?case
    by (auto simp: subscript_def split: option.splits sum.splits)
qed

lemma py_eq_JStr [simp]: "py_eq v (JStr s) \<longleftrightarrow> v = JStr s"
  by (cases v) auto

lemma accessible_ids:
  assumes "get_accessible_bucket_ids st user_id = Inr acc" "py_in v acc"
  shows "accessible st user_id v"
proof -
  from assms(1) obtain shared where
    s: "subscripts (get_shared_buckets_for_user st user_id) ''bucket_id'' = Inr shared"
    and acc: "acc = map (\<lambda>bucket. JStr (user_id @ ''_'' @ bucket)) (get_user_buckets st user_id) @ shared"
    by (auto simp: get_accessible_bucket_ids_def Let_def split: sum.splits)
  from assms(2) obtain a where a: "a \<in> set acc" "py_eq v a"
    by (auto simp: py_in_def list_ex_iff)
  from a(1) acc consider
    b where "b \<in> set (get_user_buckets st user_id)" "a = JStr (user_id @ ''_'' @ b)"
    | "a \<in> set shared" by auto
  then show ?thesis
  proof cases
    case 1
    with a(2) show ?thesis by (auto simp: accessible_def list_ex_iff)
  next
    case 2
    with subscripts_set[OF s, of a] obtain p where
      p: "p \<in> set (get_shared_buckets_for_user st user_id)" "map_of p ''bucket_id'' = Some a"
      by blast
    from p(1) obtain k where "(k, p) \<in> set (permissions st)" "dget p ''shared_with'' = JStr user_id"
      by (auto simp: get_shared_buckets_for_user_def)
    with p(2) a(2) show ?thesis
      by (force simp: accessible_def list_ex_iff)
  qed
qed

lemma map_of_dict_update:
  "distinct (map fst e) \<Longrightarrow> map_of (dict_update d e) = map_of d ++ map_of e"
  unfolding dict_update_def
proof (induction e arbitrary: d)
  case Nil
  then show ?case by simp
next
  case (Cons kv e)
  obtain k v where kv: "kv = (k, v)" by (cases kv)
  from Cons.prems kv have k: "k \<notin> dom (map_of e)" and d: "distinct (map fst e)"
    by (auto simp: dom_map_of_conv_image_fst)
  have "map_of (fold (\<lambda>(k, v). AList.update k v) (kv # e) d) =
        map_of (fold (\<lambda>(k, v). AList.update k v) e (AList.update k v d))"
    using kv by simp
  also have "\<dots> = map_of (AList.update k v d) ++ map_of e"
    by (rule Cons.IH[OF d])
  also have "\<dots> = (map_of d)(k \<mapsto> v) ++ map_of e"
    by (simp only: update_conv')
  also have "\<dots> = map_of d ++ map_of (kv # e)"
  proof (rule ext)
    fix a
    show "((map_of d)(k \<mapsto> v) ++ map_of e) a = (map_of d ++ map_of (kv # e)) a"
      using k kv by (cases "map_of e a") (auto simp: map_add_def domIff)
  qed
  finally show ?case .
qed

lemma search_step_bucket:
  assumes "search_step f now metadata acc query filters file_id sd = Inr (Some r)"
    and "distinct (map fst sd)"
  shows "\<exists>v. map_of r ''bucket_id'' = Some v \<and> py_in v acc"
proof -
  from assms(1) obtain v where v: "map_of sd ''bucket_id'' = Some v" "py_in v acc"
    and r: "r = dict_update (case map_of metadata file_id of None \<Rightarrow> [] | Some m \<Rightarrow> m) sd"
    by (auto simp: search_step_def subscript_def Let_def
        split: option.splits sum.splits if_splits bool.splits list.splits)
  from v(1) have "map_of r ''bucket_id'' = Some v"
    unfolding r map_of_dict_update[OF assms(2)] by simp
  with v(2) show ?thesis by blast
qed

lemma search_loop_results:
  "search_loop f now metadata acc query filters idx = Inr results \<Longrightarrow> r \<in> set results \<Longrightarrow>
   \<exists>(file_id, sd) \<in> set idx. search_step f now metadata acc query filters file_id sd = Inr (Some r)"
proof (induction idx arbitrary: results)
  case Nil
  then show ?case by simp
next
  case (Cons kv idx)
  obtain k sd where kv: "kv = (k, sd)" by (cases kv)
  from Cons.prems(1) kv obtain x rs where
    x: "search_step f now metadata acc query filters k sd = Inr x"
    and rs: "search_loop f now metadata acc query filters idx = Inr rs"
    and res: "results = (case x of None \<Rightarrow> rs | Some y \<Rightarrow> y # rs)"
    by (auto split: sum.splits)
  show ?case
  proof (cases "r \<in> set rs")
    case True
    from Cons.IH[OF rs True] show ?thesis by auto
  next
    case False
    with Cons.prems(2) res have "x = Some r" by (cases x) auto
    with x kv show ?thesis by auto
  qed
qed

lemma db_search_files_accessible:
  assumes "db_search_files f now st query user_id filters = Inr results" "index_dicts st"
    and "r \<in> set results"
  shows "\<exists>v. map_of r ''bucket_id'' = Some v \<and> accessible st user_id v"
proof -
  from assms(1) obtain acc where acc: "get_accessible_bucket_ids st user_id = Inr acc"
    and l: "search_loop f now (file_metadata st) acc query filters (search_index st) = Inr results"
    by (auto simp: db_search_files_def Let_def split: sum.splits)
  from search_loop_results[OF l assms(3)] obtain file_id sd where
    m: "(file_id, sd) \<in> set (search_index st)"
    and s: "search_step f now (file_metadata st) acc query filters file_id sd = Inr (Some r)"
    by auto
  from assms(2) m have "distinct (map fst sd)"
    by (auto simp: index_dicts_def list_all_iff)
  from search_step_bucket[OF s this] accessible_ids[OF acc] show ?thesis by blast
qed

lemma map_of_update_other: "k \<noteq> k' \<Longrightarrow> map_of (AList.update k' v al) k = map_of al k"
  by (simp add: update_conv')

lemma enrich_one_keeps:
  assumes "enrich_one f now st r = Inr r'"
    and "k \<notin> {''size_category'', ''days_ago'', ''bucket_name'', ''is_own_file'', ''bucket_owner''}"
  shows "map_of r' k = map_of r k"
proof -
  from assms(2) have ne: "k \<noteq> ''size_category''" "k \<noteq> ''days_ago''" "k \<noteq> ''bucket_name''"
    "k \<noteq> ''is_own_file''" "k \<noteq> ''bucket_owner''" by simp_all
  note u = map_of_update_other[OF ne(1)] map_of_update_other[OF ne(2)]
    map_of_update_other[OF ne(3)] map_of_update_other[OF ne(4)] map_of_update_other[OF ne(5)]
  from assms(1) obtain n where
    n: "as_int (case map_of r ''size'' of None \<Rightarrow> JInt 0 | Some v \<Rightarrow> v) = Inr n"
    by (cases "as_int (case map_of r ''size'' of None \<Rightarrow> JInt 0 | Some v \<Rightarrow> v)")
      (simp_all add: enrich_one_def)
  let ?e2 = "if truthy (dget r ''upload_date'')
             then AList.update ''days_ago'' (JInt (get_days_ago f now (dget r ''upload_date'')))
                    (AList.update ''size_category'' (JStr (get_file_size_category n)) r)
             else AList.update ''size_category'' (JStr (get_file_size_category n)) r"
  have e2: "map_of ?e2 k = map_of r k" by (simp add: u)
  let ?b = "case map_of r ''bucket_id'' of None \<Rightarrow> JStr [] | Some v \<Rightarrow> v"
  have unf: "enrich_one f now st r =
      (if \<not> truthy ?b then Inr ?e2
       else (case ?b of
               JStr b \<Rightarrow>
                 (case split1 b of
                    [owner_id, bucket_name] \<Rightarrow>
                      let is_own_file = (JStr owner_id = dget r ''user_id'');
                          e3 = AList.update ''is_own_file'' (JBool is_own_file)
                                 (AList.update ''bucket_name'' (JStr bucket_name) ?e2)
                      in
                      if is_own_file then Inr e3
                      else
                        (case get_user_by_id st owner_id of
                           Some (kv # kvs) \<Rightarrow>
                             Inr (AList.update ''bucket_owner''
                                    (case map_of (kv # kvs) ''email'' of
                                       None \<Rightarrow> JStr ''Unknown''
                                     | Some v \<Rightarrow> v) e3)
                         | _ \<Rightarrow> Inr e3)
                  | _ \<Rightarrow> Inr ?e2)
             | _ \<Rightarrow> Inl TypeError))"
    by (simp add: enrich_one_def n Let_def)
  show ?thesis
  proof (cases "truthy ?b")
    case False
    with assms(1) unf have "r' = ?e2" by simp
    with e2 show ?thesis by simp
  next
    case True
    then obtain b where b: "?b = JStr b" using assms(1) unf by (cases ?b) auto
    show ?thesis
    proof (cases "\<exists>o' bn. split1 b = [o', bn]")
      case False
      then have "(case split1 b of [owner_id, bucket_name] \<Rightarrow> X owner_id bucket_name | _ \<Rightarrow> Inr ?e2)
                 = Inr ?e2" for X :: "string \<Rightarrow> string \<Rightarrow> error + dict"
        by (auto split: list.splits)
      with assms(1) True b have "r' = ?e2" unfolding unf by simp
      with e2 show ?thesis by simp
    next
      case True
      then obtain o' bn where sp: "split1 b = [o', bn]" by blast
      let ?e3 = "AList.update ''is_own_file'' (JBool (JStr o' = dget r ''user_id''))
                   (AList.update ''bucket_name'' (JStr bn) ?e2)"
      have e3: "map_of ?e3 k = map_of r k" using e2 by (simp only: u)
      from assms(1) \<open>truthy ?b\<close> b sp have
        "r' = ?e3 \<or> (\<exists>a. r' = AList.update ''bucket_owner'' a ?e3)"
        unfolding unf by (auto simp: Let_def split: if_splits option.splits list.splits)
      with e3 show ?thesis by (auto simp only: u)
    qed
  qed
qed

lemma enrich_search_results_all2:
  "enrich_search_results f now st rs = Inr xs \<Longrightarrow>
   list_all2 (\<lambda>r x. enrich_one f now st r = Inr x) rs xs"
proof (induction rs arbitrary: xs)
  case Nil
  then show ?case by simp
next
  case (Cons r rs)
  then show ?case by (auto split: sum.splits)
qed

lemma keys_of_map: "keys_of key xs = Inr ks \<Longrightarrow> map key xs = map Inr ks"
proof (induction xs arbitrary: ks)
  case Nil
  then show ?case by simp
next
  case (Cons x xs)
  then show ?case by (auto split: sum.splits)
qed

lemma keys_of_length: "keys_of key xs = Inr ks \<Longrightarrow> length ks = length xs"
  by (drule keys_of_map, drule arg_cong[where f = length]) simp

lemma sorted_reverse_mset: "length ks = length xs \<Longrightarrow> mset (sorted_reverse ks xs) = mset xs"
proof -
  assume l: "length ks = length xs"
  have "mset (sorted_reverse ks xs) = image_mset snd (mset (zip ks xs))"
    by (simp add: sorted_reverse_def)
  also have "\<dots> = mset (map snd (zip ks xs))" by simp
  also have "\<dots> = mset xs" using l by simp
  finally show ?thesis .
qed

lemma sort_search_results_mset:
  "sort_search_results rs q = Inr ss \<Longrightarrow> mset ss = mset rs"
  by (auto simp: sort_search_results_def sorted_reverse_mset keys_of_length
      split: if_splits sum.splits)

text \<open>
  C1. With a search index of dictionaries, every entry of the list that
  \<open>Database.search_files\<close> returns, and every entry of the results of
  \<open>SearchEngine.search_files\<close>, has a \<open>bucket_id\<close> that is accessible to the user: the
  id of a bucket the user owns or the bucket id of a permission record that names the
  user as grantee. This holds for every query and every filter set.
\<close>

theorem search_results_accessible:
  assumes "index_dicts st"
  shows "(\<forall>results. db_search_files f now st query user_id filters = Inr results \<longrightarrow>
            (\<forall>r \<in> set results. \<exists>v. map_of r ''bucket_id'' = Some v \<and> accessible st user_id v)) \<and>
         (\<forall>r \<in> set (snd (search_files f now st user_id query filters)).
            \<exists>v. map_of r ''bucket_id'' = Some v \<and> accessible st user_id v)"
proof (intro conjI allI impI ballI)
  fix results r
  assume "db_search_files f now st query user_id filters = Inr results" "r \<in> set results"
  then show "\<exists>v. map_of r ''bucket_id'' = Some v \<and> accessible st user_id v"
    using db_search_files_accessible[OF _ assms] by blast
next
  fix r
  assume r: "r \<in> set (snd (search_files f now st user_id query filters))"
  then obtain rs es ss where db: "db_search_files f now st query user_id filters = Inr rs"
    and en: "enrich_search_results f now st rs = Inr es"
    and so: "sort_search_results es query = Inr ss" and rss: "r \<in> set ss"
    by (auto simp: search_files_def split: sum.splits)
  from sort_search_results_mset[OF so] rss have "r \<in> set es"
    by (metis mset_eq_setD)
  then obtain i where i: "i < length es" "r = es ! i"
    by (auto simp: in_set_conv_nth)
  from enrich_search_results_all2[OF en] i
  have "length rs = length es" "enrich_one f now st (rs ! i) = Inr r"
    by (simp_all add: list_all2_conv_all_nth)
  with i(1) have r0: "rs ! i \<in> set rs" "enrich_one f now st (rs ! i) = Inr r"
    by simp_all
  from enrich_one_keeps[OF r0(2), of "''bucket_id''"]
  have "map_of r ''bucket_id'' = map_of (rs ! i) ''bucket_id''" by simp
  with db_search_files_accessible[OF db assms r0(1)]
  show "\<exists>v. map_of r ''bucket_id'' = Some v \<and> accessible st user_id v" by simp
qed

lemma demo_library_carol:
  "db_search_files demo_parse demo_now demo_library [] ''carol'' None =
     Inr [demo_entry ''report.pdf'' ''2024-01-03T23:00:00'' ''alice_docs'' ''alice'',
          demo_entry ''report_final.pdf'' ''2023-11-01T10:00:00'' ''alice_docs'' ''alice'',
          demo_entry ''myreport.pdf'' ''2024-01-03T09:00:00'' ''alice_docs'' ''alice'']"
  by (simp add: db_search_files_def get_accessible_bucket_ids_def get_user_buckets_def
      get_shared_buckets_for_user_def dget_def subscript_def search_step_def py_in_def
      dict_update_def demo_entry_def demo_library_def demo_state_def)

theorem search_results_accessible_witness:
  "index_dicts demo_library \<and>
   db_search_files demo_parse demo_now demo_library [] ''carol'' None =
     Inr [demo_entry ''report.pdf'' ''2024-01-03T23:00:00'' ''alice_docs'' ''alice'',
          demo_entry ''report_final.pdf'' ''2023-11-01T10:00:00'' ''alice_docs'' ''alice'',
          demo_entry ''myreport.pdf'' ''2024-01-03T09:00:00'' ''alice_docs'' ''alice''] \<and>
   accessible demo_library ''carol'' (JStr ''alice_docs'') \<and>
   \<not> accessible demo_library ''carol'' (JStr ''bob_private'')"
proof -
  have d: "index_dicts demo_library"
    by (simp add: index_dicts_def demo_library_def demo_entry_def)
  have n: "\<not> accessible demo_library ''carol'' (JStr ''bob_private'')"
    by (simp add: accessible_def get_user_buckets_def dget_def demo_library_def demo_state_def)
  have m: "map_of (demo_entry ''report.pdf'' ''2024-01-03T23:00:00'' ''alice_docs'' ''alice'')
             ''bucket_id'' = Some (JStr ''alice_docs'')"
    by (simp add: demo_entry_def)
  from search_results_accessible[OF d, of demo_parse demo_now "[]" "''carol''" None]
    demo_library_carol
  have "accessible demo_library ''carol'' (JStr ''alice_docs'')"
    by (auto simp: m)
  with d n demo_library_carol show ?thesis by simp
qed

section \<open>Search: the date filter\<close>

lemma check_date_range_parsed:
  assumes "fromisoformat (replace_Z s) = Some dt" "s \<noteq> []"
  shows "check_date_range fromisoformat now (JStr s) (JStr rng) =
     (if rng = ''today'' then date_of (wall dt) = date_of now
      else if rng = ''week'' then utcoffset dt = None \<and> (now - wall dt) div day_us \<le> 7
      else if rng = ''month'' then utcoffset dt = None \<and> (now - wall dt) div day_us \<le> 30
      else if rng = ''year'' then utcoffset dt = None \<and> (now - wall dt) div day_us \<le> 365
      else True)"
  using assms
  by (cases "utcoffset dt") (simp_all add: check_date_range_def days_since_def)

lemma apply_filters_date_only:
  assumes "rng \<noteq> []"
  shows "apply_filters fromisoformat now search_data metadata [(''date_range'', JStr rng)] =
     Inr (check_date_range fromisoformat now (dget search_data ''upload_date'') (JStr rng))"
  using assms by (simp add: apply_filters_def dget_def)

lemma same_day_elapsed: "date_of w = date_of now \<Longrightarrow> (now - w) div day_us \<le> 0"
proof -
  assume e: "date_of w = date_of now"
  have p: "(0::int) < day_us" by (simp add: day_us_def)
  have n: "now div day_us * day_us + now mod day_us = now" by (rule div_mult_mod_eq)
  have w: "w div day_us * day_us + w mod day_us = w" by (rule div_mult_mod_eq)
  have b: "now mod day_us < day_us" "0 \<le> w mod day_us" using p by simp_all
  from e have "now div day_us * day_us = w div day_us * day_us" by (simp add: date_of_def)
  with n w b have "now - w \<le> day_us - 1" by linarith
  with p have "(now - w) div day_us \<le> (day_us - 1) div day_us" by (intro zdiv_mono1) simp_all
  also have "(day_us - 1) div day_us = 0" by (simp add: day_us_def)
  finally show ?thesis .
qed

text \<open>
  Against C8 as stated: a file uploaded on 2024-01-03 at 23:00 and a search on
  2024-01-04 at 01:00 with the filter \<open>today\<close>: no whole day has elapsed, and the entry
  does not pass.
\<close>

theorem today_is_calendar_day_counterexample:
  "demo_parse (replace_Z ''2024-01-03T23:00:00'') =
     Some \<lparr>wall = at_hour 738888 23, utcoffset = None\<rparr> \<and>
   (demo_now - at_hour 738888 23) div day_us = 0 \<and>
   apply_filters demo_parse demo_now
     (demo_entry ''report.pdf'' ''2024-01-03T23:00:00'' ''alice_docs'' ''alice'') []
     [(''date_range'', JStr ''today'')] = Inr False"
proof -
  have p: "demo_parse (replace_Z ''2024-01-03T23:00:00'') =
     Some \<lparr>wall = at_hour 738888 23, utcoffset = None\<rparr>"
    by (simp add: demo_parse_def replace_Z_def)
  have d: "(demo_now - at_hour 738888 23) div day_us = 0"
    by (simp add: demo_now_def at_hour_def day_us_def)
  have u: "dget (demo_entry ''report.pdf'' ''2024-01-03T23:00:00'' ''alice_docs'' ''alice'')
             ''upload_date'' = JStr ''2024-01-03T23:00:00''"
    by (simp add: dget_def demo_entry_def)
  have "apply_filters demo_parse demo_now
     (demo_entry ''report.pdf'' ''2024-01-03T23:00:00'' ''alice_docs'' ''alice'') []
     [(''date_range'', JStr ''today'')] = Inr False"
    unfolding apply_filters_date_only[of "''today''", simplified] u
    by (simp add: check_date_range_parsed[where fromisoformat = demo_parse and s = "''2024-01-03T23:00:00''", OF p] date_of_def demo_now_def at_hour_def day_us_def)
  with p d show ?thesis by simp
qed

section \<open>Search: the date filter among other filters\<close>

lemma dget_delete:
  "dget (AList.delete k al) k' = (if k' = k then JNull else dget al k')"
  by (simp add: dget_def delete_conv')

lemma apply_filters_with_date:
  assumes "dget filters ''date_range'' = JStr rng" "rng \<noteq> []"
  shows "apply_filters fromisoformat now search_data metadata filters =
     (if check_date_range fromisoformat now (dget search_data ''upload_date'') (JStr rng)
      then apply_filters fromisoformat now search_data metadata (AList.delete ''date_range'' filters)
      else (case apply_filters fromisoformat now search_data metadata
                   (AList.delete ''date_range'' filters) of
              Inl e \<Rightarrow> Inl e
            | Inr passed \<Rightarrow> Inr False))"
  using assms
  by (auto simp: apply_filters_def dget_delete split: sum.splits bool.splits)

text \<open>
  C8, amended. For every filter set with a \<open>date_range\<close> of \<open>today\<close>, \<open>week\<close>, \<open>month\<close> or
  \<open>year\<close>, whatever other filters it holds, and an entry whose \<open>upload_date\<close> is a
  non-empty string that \<open>datetime.fromisoformat\<close> reads: the entry passes the filters
  exactly when it passes the date test and the other filters. The date test is: with
  \<open>today\<close>, the calendar day of the upload date is the calendar day of the evaluation
  instant (then the elapsed whole days are at most 0, but not the other way round);
  with \<open>week\<close>, \<open>month\<close>, \<open>year\<close>, the upload date carries no timezone and the number of
  elapsed whole days between it and the evaluation instant is at most 7, 30, 365. So a
  search with such a filter returns no entry that fails the date test, and with the
  date filter alone an entry passes exactly when it passes the date test.
\<close>

theorem date_range_filter:
  assumes "fromisoformat (replace_Z s) = Some dt" "s \<noteq> []"
    and "dget search_data ''upload_date'' = JStr s"
    and "dget filters ''date_range'' = JStr rng"
    and "rng \<in> {''today'', ''week'', ''month'', ''year''}"
  shows "apply_filters fromisoformat now search_data metadata filters =
           (if date_range_passes rng dt now
            then apply_filters fromisoformat now search_data metadata
                   (AList.delete ''date_range'' filters)
            else (case apply_filters fromisoformat now search_data metadata
                         (AList.delete ''date_range'' filters) of
                    Inl e \<Rightarrow> Inl e
                  | Inr passed \<Rightarrow> Inr False)) \<and>
         apply_filters fromisoformat now search_data metadata [(''date_range'', JStr rng)] =
           Inr (date_range_passes rng dt now) \<and>
         (\<forall>r. search_step fromisoformat now objects acc query (Some filters) file_id search_data =
                Inr (Some r) \<longrightarrow> date_range_passes rng dt now) \<and>
         (date_of (wall dt) = date_of now \<longrightarrow> (now - wall dt) div day_us \<le> 0)"
proof -
  from assms(5) have ne: "rng \<noteq> []" by auto
  have c: "check_date_range fromisoformat now (dget search_data ''upload_date'') (JStr rng) =
           date_range_passes rng dt now"
    unfolding assms(3)
      check_date_range_parsed[where fromisoformat = fromisoformat and s = s and now = now,
        OF assms(1,2)]
    using assms(5) by (auto simp: date_range_passes_def)
  have 1: "apply_filters fromisoformat now search_data m filters =
           (if date_range_passes rng dt now
            then apply_filters fromisoformat now search_data m (AList.delete ''date_range'' filters)
            else (case apply_filters fromisoformat now search_data m
                         (AList.delete ''date_range'' filters) of
                    Inl e \<Rightarrow> Inl e
                  | Inr passed \<Rightarrow> Inr False))" for m
    using apply_filters_with_date[OF assms(4) ne, of fromisoformat now search_data m]
    unfolding c .
  have 2: "apply_filters fromisoformat now search_data metadata [(''date_range'', JStr rng)] =
           Inr (date_range_passes rng dt now)"
    using apply_filters_date_only[OF ne, of fromisoformat now search_data metadata]
    unfolding c .
  have 3: "date_range_passes rng dt now"
    if s: "search_step fromisoformat now objects acc query (Some filters) file_id search_data =
            Inr (Some r)" for r
  proof (rule ccontr)
    assume n: "\<not> date_range_passes rng dt now"
    from assms(4) obtain kv kvs where f: "filters = kv # kvs"
      by (cases filters) (auto simp: dget_def)
    let ?found = "case map_of objects file_id of None \<Rightarrow> [] | Some m \<Rightarrow> m"
    from 1[of ?found] n have "apply_filters fromisoformat now search_data ?found filters \<noteq> Inr True"
      by (auto split: sum.splits)
    then have "apply_filters fromisoformat now search_data ?found (kv # kvs) \<noteq> Inr True"
      unfolding f .
    with s show False
      unfolding search_step_def f Let_def
      by (auto split: sum.splits if_splits bool.splits)
  qed
  from 1[of metadata] 2 3 same_day_elapsed[of "wall dt" now] show ?thesis by blast
qed

theorem date_range_filter_witness:
  "demo_parse (replace_Z ''2023-11-01T10:00:00'') =
     Some \<lparr>wall = at_hour 738825 10, utcoffset = None\<rparr> \<and>
   dget (demo_entry ''report_final.pdf'' ''2023-11-01T10:00:00'' ''alice_docs'' ''alice'')
     ''upload_date'' = JStr ''2023-11-01T10:00:00'' \<and>
   (demo_now - at_hour 738825 10) div day_us = 63 \<and>
   \<not> date_range_passes ''month'' \<lparr>wall = at_hour 738825 10, utcoffset = None\<rparr> demo_now \<and>
   apply_filters demo_parse demo_now
     (demo_entry ''report_final.pdf'' ''2023-11-01T10:00:00'' ''alice_docs'' ''alice'') []
     [(''file_type'', JStr ''other''), (''date_range'', JStr ''month'')] = Inr False \<and>
   date_range_passes ''year'' \<lparr>wall = at_hour 738825 10, utcoffset = None\<rparr> demo_now \<and>
   apply_filters demo_parse demo_now
     (demo_entry ''report_final.pdf'' ''2023-11-01T10:00:00'' ''alice_docs'' ''alice'') []
     [(''file_type'', JStr ''other''), (''date_range'', JStr ''year'')] = Inr True \<and>
   apply_filters demo_parse demo_now
     (demo_entry ''report_final.pdf'' ''2023-11-01T10:00:00'' ''alice_docs'' ''alice'') []
     [(''date_range'', JStr ''today'')] = Inr False"
proof -
  let ?dt = "\<lparr>wall = at_hour 738825 10, utcoffset = None\<rparr>"
  let ?e = "demo_entry ''report_final.pdf'' ''2023-11-01T10:00:00'' ''alice_docs'' ''alice''"
  have p: "demo_parse (replace_Z ''2023-11-01T10:00:00'') = Some ?dt"
    by (simp add: demo_parse_def replace_Z_def)
  have n: "''2023-11-01T10:00:00'' \<noteq> []" by simp
  have u: "dget ?e ''upload_date'' = JStr ''2023-11-01T10:00:00''"
    by (simp add: dget_def demo_entry_def)
  have d: "(demo_now - at_hour 738825 10) div day_us = 63"
    by (simp add: demo_now_def at_hour_def day_us_def)
  have t: "date_of (at_hour 738825 10) \<noteq> date_of demo_now"
    by (simp add: date_of_def demo_now_def at_hour_def day_us_def)
  have pm: "\<not> date_range_passes ''month'' ?dt demo_now"
    and py: "date_range_passes ''year'' ?dt demo_now"
    and pt: "\<not> date_range_passes ''today'' ?dt demo_now"
    by (simp_all add: date_range_passes_def d t)
  have rest: "apply_filters demo_parse demo_now ?e [] [(''file_type'', JStr ''other'')] = Inr True"
    by (simp add: apply_filters_def dget_def demo_entry_def)
  have fm: "dget [(''file_type'', JStr ''other''), (''date_range'', JStr ''month'')] ''date_range''
              = JStr ''month''"
    and fy: "dget [(''file_type'', JStr ''other''), (''date_range'', JStr ''year'')] ''date_range''
              = JStr ''year''"
    and ft: "dget [(''date_range'', JStr ''today'')] ''date_range'' = JStr ''today''"
    by (simp_all add: dget_def)
  have del: "AList.delete ''date_range'' [(''file_type'', JStr ''other''), (''date_range'', JStr ''month'')]
               = [(''file_type'', JStr ''other'')]"
    "AList.delete ''date_range'' [(''file_type'', JStr ''other''), (''date_range'', JStr ''year'')]
               = [(''file_type'', JStr ''other'')]"
    by (simp_all add: AList.delete_eq)
  note th = date_range_filter[where fromisoformat = demo_parse and s = "''2023-11-01T10:00:00''"
      and now = demo_now and metadata = "[]" and search_data = ?e, OF p n u]
  have m: "apply_filters demo_parse demo_now ?e []
     [(''file_type'', JStr ''other''), (''date_range'', JStr ''month'')] = Inr False"
    using th[OF fm, THEN conjunct1] by (simp add: pm del rest)
  have y: "apply_filters demo_parse demo_now ?e []
     [(''file_type'', JStr ''other''), (''date_range'', JStr ''year'')] = Inr True"
    using th[OF fy, THEN conjunct1] by (simp add: py del rest)
  have td: "apply_filters demo_parse demo_now ?e [] [(''date_range'', JStr ''today'')] = Inr False"
    using th[OF ft, THEN conjunct2, THEN conjunct1] by (simp add: pt)
  from p u d pm m py y td show ?thesis by simp
qed

section \<open>Rename of a file without index entry\<close>

lemma demo_orphan_reached:
  "snd (upload_file Config (\<lambda>n. n) demo_index_write_fails demo_env ''alice'' ''docs''
          (Some notes_file)) = demo_orphan"
proof -
  have f: "filename notes_file \<noteq> []" by (simp add: notes_file_def)
  have b: "''docs'' \<in> set (get_user_buckets demo_index_write_fails ''alice'')"
    by (simp add: get_user_buckets_def demo_index_write_fails_def demo_state_def)
  have s: "save demo_env = SaveOk" by (simp add: demo_env_def)
  have o: "outcome (io demo_index_write_fails) 0 = WOk"
    "outcome (io demo_index_write_fails) 1 = WFail"
    by (simp_all add: outcome_def demo_index_write_fails_def)
  have n: "new_id demo_env = ''f2''" by (simp add: demo_env_def)
  show ?thesis
    unfolding upload_file_saved[OF f b notes_valid s] Let_def o notes_path n
    by (simp add: demo_orphan_def demo_index_write_fails_def demo_state_def)
qed

text \<open>
  Against C9 as stated: after the failed upload of the counterexample to C2 the file
  \<open>f2\<close> has an object record and no index entry. Its rename succeeds and changes the
  object record; the search index is as before, and no entry of it shows the new name.
\<close>

theorem rename_without_index_entry_counterexample:
  "snd (upload_file Config (\<lambda>n. n) demo_index_write_fails demo_env ''alice'' ''docs''
          (Some notes_file)) = demo_orphan \<and>
   map_of (search_index demo_orphan) ''f2'' = None \<and>
   rename_file demo_strip demo_orphan ''alice'' ''f2'' ''renamed.txt'' =
     Inr ((True, FileRenamedSuccessfully), demo_orphan_renamed) \<and>
   dget (snd (last (file_metadata demo_orphan_renamed))) ''file_name'' = JStr ''renamed.txt'' \<and>
   search_index demo_orphan_renamed = search_index demo_orphan \<and>
   map (\<lambda>(k, e). dget e ''file_name'') (search_index demo_orphan_renamed) = [JStr ''report.pdf'']"
proof -
  have 1: "map_of (search_index demo_orphan) ''f2'' = None"
    by (simp add: demo_orphan_def demo_state_def)
  have 2: "rename_file demo_strip demo_orphan ''alice'' ''f2'' ''renamed.txt'' =
     Inr ((True, FileRenamedSuccessfully), demo_orphan_renamed)"
    by (simp add: rename_file_def get_file_metadata_def subscript_str_def check_bucket_access_def
      split1_def demo_strip_def dict_update_def write_json_def demo_state_def
      demo_orphan_def demo_orphan_renamed_def object_record_def)
  have 3: "dget (snd (last (file_metadata demo_orphan_renamed))) ''file_name'' = JStr ''renamed.txt''"
    by (simp add: demo_orphan_renamed_def object_record_def dget_def)
  have 4: "search_index demo_orphan_renamed = search_index demo_orphan"
    by (simp add: demo_orphan_renamed_def demo_orphan_def)
  have 5: "map (\<lambda>(k, e). dget e ''file_name'') (search_index demo_orphan_renamed) = [JStr ''report.pdf'']"
    by (simp add: demo_orphan_renamed_def demo_state_def dget_def)
  from demo_orphan_reached 1 2 3 4 5 show ?thesis by simp
qed

section \<open>Search: ranking\<close>

lemma demo_library_bob:
  "db_search_files demo_parse demo_now demo_library ''report'' ''bob'' None =
     Inr [demo_entry ''report.pdf'' ''2024-01-03T23:00:00'' ''alice_docs'' ''alice'',
          demo_entry ''report_final.pdf'' ''2023-11-01T10:00:00'' ''alice_docs'' ''alice'',
          demo_entry ''myreport.pdf'' ''2024-01-03T09:00:00'' ''alice_docs'' ''alice'']"
  by (simp add: db_search_files_def get_accessible_bucket_ids_def get_user_buckets_def
      get_shared_buckets_for_user_def dget_def subscript_def subscript_str_def search_step_def
      py_in_def lower_def lower_char_def
      dict_update_def demo_entry_def demo_library_def demo_state_def)

lemma demo_enrich_one:
  "enrich_one demo_parse demo_now demo_library
     (demo_entry ''report.pdf'' ''2024-01-03T23:00:00'' ''alice_docs'' ''alice'') =
     Inr (demo_enriched ''report.pdf'' ''2024-01-03T23:00:00'' 0)"
  "enrich_one demo_parse demo_now demo_library
     (demo_entry ''report_final.pdf'' ''2023-11-01T10:00:00'' ''alice_docs'' ''alice'') =
     Inr (demo_enriched ''report_final.pdf'' ''2023-11-01T10:00:00'' 63)"
  "enrich_one demo_parse demo_now demo_library
     (demo_entry ''myreport.pdf'' ''2024-01-03T09:00:00'' ''alice_docs'' ''alice'') =
     Inr (demo_enriched ''myreport.pdf'' ''2024-01-03T09:00:00'' 0)"
  by (simp_all add: enrich_one_def demo_entry_def demo_enriched_def dget_def
      get_file_size_category_def get_days_ago_def replace_Z_def demo_parse_def demo_now_def
      at_hour_def day_us_def split1_def)

lemma demo_scores:
  "calculate_relevance_score ''report'' (demo_enriched ''report.pdf'' ''2024-01-03T23:00:00'' 0)
     = Inr 65"
  "calculate_relevance_score ''report'' (demo_enriched ''report_final.pdf'' ''2023-11-01T10:00:00'' 63)
     = Inr 55"
  "calculate_relevance_score ''report'' (demo_enriched ''myreport.pdf'' ''2024-01-03T09:00:00'' 0)
     = Inr 40"
  by (simp_all add: calculate_relevance_score_def demo_enriched_def demo_entry_def
      lower_def lower_char_def)

lemma demo_sort:
  "sort_search_results
     [demo_enriched ''report.pdf'' ''2024-01-03T23:00:00'' 0,
      demo_enriched ''report_final.pdf'' ''2023-11-01T10:00:00'' 63,
      demo_enriched ''myreport.pdf'' ''2024-01-03T09:00:00'' 0] ''report'' =
   Inr [demo_enriched ''report.pdf'' ''2024-01-03T23:00:00'' 0,
        demo_enriched ''report_final.pdf'' ''2023-11-01T10:00:00'' 63,
        demo_enriched ''myreport.pdf'' ''2024-01-03T09:00:00'' 0]"
proof -
  have l: "lower ''report'' = ''report''" by (simp add: lower_def lower_char_def)
  have d: "date_key (demo_enriched n d k) = Inr d" for n d k
    by (simp add: date_key_def demo_enriched_def demo_entry_def)
  show ?thesis
    by (simp add: sort_search_results_def l demo_scores d sorted_reverse_def)
qed

text \<open>What holds of the ranking as the code computes it.\<close>

lemma keys_of_all:
  "(\<forall>x \<in> set xs. \<exists>v. key x = Inr v) \<Longrightarrow> keys_of key xs = Inr (map (\<lambda>x. projr (key x)) xs)"
  by (induction xs) auto

lemma keys_of_defined:
  "keys_of key xs = Inr ks \<Longrightarrow> (\<forall>x \<in> set xs. \<exists>v. key x = Inr v) \<and> ks = map (\<lambda>x. projr (key x)) xs"
proof (induction xs arbitrary: ks)
  case Nil
  then show ?case by simp
next
  case (Cons x xs)
  then show ?case by (auto split: sum.splits)
qed

lemma sorted_reverse_descending:
  "sorted (rev (map key (sorted_reverse (map key xs) xs)))"
proof -
  let ?ps = "sort_key fst (rev (zip (map key xs) xs))"
  have "\<forall>p \<in> set ?ps. key (snd p) = fst p"
    by (auto simp: zip_map1 zip_same_conv_map)
  then have "map key (map snd ?ps) = map fst ?ps"
    by (simp add: map_idI cong: map_cong)
  then have "rev (map key (sorted_reverse (map key xs) xs)) = map fst ?ps"
    by (simp add: sorted_reverse_def rev_map)
  then show ?thesis by (simp add: sorted_sort_key)
qed

lemma sorted_by_key:
  assumes "keys_of key xs = Inr ks"
  shows "\<exists>ks'. keys_of key (sorted_reverse ks xs) = Inr ks' \<and> sorted (rev ks')"
proof -
  let ?k = "\<lambda>x. projr (key x)"
  from keys_of_defined[OF assms] have d: "\<forall>x \<in> set xs. \<exists>v. key x = Inr v"
    and ks: "ks = map ?k xs" by simp_all
  have "mset (sorted_reverse ks xs) = mset xs"
    by (rule sorted_reverse_mset) (simp add: ks)
  then have "set (sorted_reverse ks xs) = set xs" by (rule mset_eq_setD)
  with d have "keys_of key (sorted_reverse ks xs) = Inr (map ?k (sorted_reverse ks xs))"
    by (intro keys_of_all) simp
  moreover have "sorted (rev (map ?k (sorted_reverse ks xs)))"
    unfolding ks by (rule sorted_reverse_descending)
  ultimately show ?thesis by blast
qed

text \<open>
  The results come in descending order of the key the code sorts by: the upload date
  for an empty query, the pair of score and upload date otherwise.
\<close>

lemma sort_by_date_descending:
  assumes "sort_search_results results [] = Inr sorted_results"
  shows "\<exists>ks. keys_of date_key sorted_results = Inr ks \<and> sorted (rev ks)"
proof -
  from assms obtain ks where k: "keys_of date_key results = Inr ks"
    and s: "sorted_results = sorted_reverse ks results"
    by (auto simp: sort_search_results_def split: sum.splits)
  from sorted_by_key[OF k] s show ?thesis by simp
qed

lemma sort_by_score_descending:
  assumes "sort_search_results results query = Inr sorted_results" and "query \<noteq> []"
  shows "\<exists>ks. keys_of (\<lambda>x. case calculate_relevance_score (lower query) x of
                            Inl e \<Rightarrow> Inl e
                          | Inr score \<Rightarrow>
                              (case date_key x of Inl e \<Rightarrow> Inl e | Inr d \<Rightarrow> Inr (score, d)))
                sorted_results = Inr ks \<and> sorted (rev ks)"
proof (cases "results = []")
  case True
  with assms have "sorted_results = []"
    by (simp add: sort_search_results_def sorted_reverse_def)
  then show ?thesis by simp
next
  case False
  let ?key = "\<lambda>x. case calculate_relevance_score (lower query) x of
                    Inl e \<Rightarrow> Inl e
                  | Inr score \<Rightarrow>
                      (case date_key x of Inl e \<Rightarrow> Inl e | Inr d \<Rightarrow> Inr (score, d))"
  from assms False obtain ks where k: "keys_of ?key results = Inr ks"
    and s: "sorted_results = sorted_reverse ks results"
    by (auto simp: sort_search_results_def split: sum.splits)
  from sorted_by_key[OF k] s show ?thesis by simp
qed

text \<open>
  The three tiers of the name match are 50 points apart at least, the two bonuses come
  to 15 at most: a name that starts with the query scores above every name that does not.
\<close>

lemma score_bounds:
  assumes "calculate_relevance_score q x = Inr s"
    and "map_of x ''file_name'' = Some (JStr n)"
  shows "(q = lower n \<longrightarrow> 100 \<le> s \<and> s \<le> 115)
       \<and> (q \<noteq> lower n \<and> prefix q (lower n) \<longrightarrow> 50 \<le> s \<and> s \<le> 65)
       \<and> (\<not> prefix q (lower n) \<and> contains q (lower n) \<longrightarrow> 25 \<le> s \<and> s \<le> 40)
       \<and> (\<not> prefix q (lower n) \<and> \<not> contains q (lower n) \<longrightarrow> 0 \<le> s \<and> s \<le> 15)"
  using assms
  by (auto simp: calculate_relevance_score_def Let_def split: sum.splits if_splits)

lemma prefix_above_substring:
  assumes "calculate_relevance_score q x = Inr s"
    and "calculate_relevance_score q y = Inr t"
    and "map_of x ''file_name'' = Some (JStr n)"
    and "map_of y ''file_name'' = Some (JStr m)"
    and "prefix q (lower n)" and "\<not> prefix q (lower m)"
  shows "t < s"
proof -
  from score_bounds[OF assms(1,3)] assms(5) have "50 \<le> s" by auto
  moreover from score_bounds[OF assms(2,4)] assms(6) have "t \<le> 40" by auto
  ultimately show ?thesis by simp
qed

section \<open>Search: the bonus for own files\<close>

text \<open>
  C7. For a non-empty query the results are sorted by score, then upload date, both
  descending, and a name that starts with the query comes before every name that only
  contains it (\<open>sort_by_score_descending\<close>, \<open>prefix_above_substring\<close>); for an empty
  query by upload date alone (\<open>sort_by_date_descending\<close>). The 5 points for an own file
  do not go to the files of the user who searches: \<open>is_own_file\<close> compares the owner of the
  bucket with the \<open>user_id\<close> of the file and never reads the requesting user, although the
  code calls it the bonus for the user's own files. When bob searches for \<open>report\<close>,
  the file of alice is marked as an own file and scored 65 like his own, and comes first
  by its later upload date; with the specified score (60 for the file of alice, 65 for
  the file of bob) his own file comes first.
\<close>

theorem shared_file_scored_as_own:
  "fst (search_files demo_parse demo_now demo_ranking ''bob'' ''report'' None) = True \<and>
   map (\<lambda>r. (dget r ''file_name'', dget r ''user_id'', dget r ''is_own_file'',
              calculate_relevance_score (lower ''report'') r))
       (snd (search_files demo_parse demo_now demo_ranking ''bob'' ''report'' None)) =
     [(JStr ''report.pdf'', JStr ''alice'', JBool True, Inr 65),
      (JStr ''report_b.pdf'', JStr ''bob'', JBool True, Inr 65)] \<and>
   map (\<lambda>r. (dget r ''file_name'', specified_score ''report'' ''bob'' r))
       (snd (search_files demo_parse demo_now demo_ranking ''bob'' ''report'' None)) =
     [(JStr ''report.pdf'', 60), (JStr ''report_b.pdf'', 65)]"
proof -
  let ?b = "demo_entry ''report_b.pdf'' ''2024-01-03T09:00:00'' ''bob_private'' ''bob''"
  let ?a = "demo_entry ''report.pdf'' ''2024-01-03T23:00:00'' ''alice_docs'' ''alice''"
  let ?eb = "?b @ [(''size_category'', JStr ''small''), (''days_ago'', JInt 0),
                   (''bucket_name'', JStr ''private''), (''is_own_file'', JBool True)]"
  let ?ea = "?a @ [(''size_category'', JStr ''small''), (''days_ago'', JInt 0),
                   (''bucket_name'', JStr ''docs''), (''is_own_file'', JBool True)]"
  have l: "lower ''report'' = ''report''" by (simp add: lower_def lower_char_def)
  have db: "db_search_files demo_parse demo_now demo_ranking ''report'' ''bob'' None = Inr [?b, ?a]"
    by (simp add: db_search_files_def get_accessible_bucket_ids_def get_user_buckets_def
        get_shared_buckets_for_user_def dget_def subscript_def subscript_str_def search_step_def
        py_in_def lower_def lower_char_def
        dict_update_def demo_entry_def demo_ranking_def demo_state_def)
  have eb: "enrich_one demo_parse demo_now demo_ranking ?b = Inr ?eb"
    by (simp add: enrich_one_def demo_entry_def dget_def
        get_file_size_category_def get_days_ago_def replace_Z_def demo_parse_def demo_now_def
        at_hour_def day_us_def split1_def)
  have ea: "enrich_one demo_parse demo_now demo_ranking ?a = Inr ?ea"
    by (simp add: enrich_one_def demo_entry_def dget_def
        get_file_size_category_def get_days_ago_def replace_Z_def demo_parse_def demo_now_def
        at_hour_def day_us_def split1_def)
  have en: "enrich_search_results demo_parse demo_now demo_ranking [?b, ?a] = Inr [?eb, ?ea]"
    by (simp add: eb ea)
  have sb: "calculate_relevance_score ''report'' ?eb = Inr 65"
    by (simp add: calculate_relevance_score_def demo_entry_def lower_def lower_char_def)
  have sa: "calculate_relevance_score ''report'' ?ea = Inr 65"
    by (simp add: calculate_relevance_score_def demo_entry_def lower_def lower_char_def)
  have kb: "date_key ?eb = Inr ''2024-01-03T09:00:00''"
    by (simp add: date_key_def demo_entry_def)
  have ka: "date_key ?ea = Inr ''2024-01-03T23:00:00''"
    by (simp add: date_key_def demo_entry_def)
  have so: "sort_search_results [?eb, ?ea] ''report'' = Inr [?ea, ?eb]"
    by (simp add: sort_search_results_def l sb sa kb ka sorted_reverse_def)
  have sf: "search_files demo_parse demo_now demo_ranking ''bob'' ''report'' None = (True, [?ea, ?eb])"
    by (simp only: search_files_def db en so sum.case)
  have pa: "dget ?ea ''file_name'' = JStr ''report.pdf''" "dget ?ea ''user_id'' = JStr ''alice''"
    "dget ?ea ''is_own_file'' = JBool True"
    by (simp_all add: dget_def demo_entry_def)
  have pb: "dget ?eb ''file_name'' = JStr ''report_b.pdf''" "dget ?eb ''user_id'' = JStr ''bob''"
    "dget ?eb ''is_own_file'' = JBool True"
    by (simp_all add: dget_def demo_entry_def)
  have ta: "specified_score ''report'' ''bob'' ?ea = 60"
    by (simp add: specified_score_def dget_def demo_entry_def lower_def lower_char_def)
  have tb: "specified_score ''report'' ''bob'' ?eb = 65"
    by (simp add: specified_score_def dget_def demo_entry_def lower_def lower_char_def)
  show ?thesis
    unfolding sf l by (simp only: fst_conv snd_conv list.map pa pb sa sb ta tb simp_thms)
qed

end
